theory Spec2Isabelle
  imports Complex_Main "HOL-Library.Multiset"
begin

section \<open>Numbers and vertices\<close>

text \<open>
  The measurement code works on JavaScript numbers. They are modelled as real numbers,
  so every statement below is about the exact arithmetic the code approximates. Where
  the code can leave the finite numbers even in exact arithmetic (a division by zero,
  the square root of a negative number) the result is a \<open>jsnum\<close>, which adds the
  IEEE values \<open>Infinity\<close>, \<open>-Infinity\<close> and \<open>NaN\<close>.

  A vertex is the two-element array \<open>[lat, lng]\<close>; \<open>fst\<close> is index 0 and
  \<open>snd\<close> is index 1. Every list element is taken to be such an array of two finite
  numbers, which is what the decoders hand over.

  Three files define the measurement functions. \<open>map-script.js\<close> has the plain
  ones; the two files without a name, \<open>part_000\<close> and \<open>part_001\<close>, have a cached
  variant of area and perimeter and a coordinate checker each. A definition that keeps
  the name of the source stands for \<open>map-script.js\<close> (geometry) or \<open>part_000\<close>
  (checker); the suffixes \<open>_p0\<close> and \<open>_p1\<close> mark the cached variants of
  \<open>part_000\<close> and \<open>part_001\<close> and the checker of \<open>part_001\<close>.
\<close>

datatype jsnum = Fin real | PosInf | NegInf | NaN

type_synonym vertex = "real \<times> real"
type_synonym ring = "vertex list"

text \<open>The quotient \<open>a / b\<close> of two finite numbers, with a zero divisor as IEEE has it.\<close>

definition js_div :: "real \<Rightarrow> real \<Rightarrow> jsnum" where
  "js_div a b =
     (if b \<noteq> 0 then Fin (a / b)
      else if 0 < a then PosInf
      else if a < 0 then NegInf
      else NaN)"

section \<open>Bounding box and aspect ratio\<close>

record bbox =
  minLat :: real
  maxLat :: real
  minLng :: real
  maxLng :: real
  width :: real
  height :: real

text \<open>
  \<open>calculateBoundingBox\<close>: \<open>null\<close> for the empty list, otherwise the four extremes,
  started at the first point and updated by a \<open>forEach\<close> over all points.
\<close>

definition bboxStep :: "vertex \<Rightarrow> real \<times> real \<times> real \<times> real \<Rightarrow> real \<times> real \<times> real \<times> real" where
  "bboxStep point acc =
     (case acc of (mnLat, mxLat, mnLng, mxLng) \<Rightarrow>
        (min mnLat (fst point), max mxLat (fst point),
         min mnLng (snd point), max mxLng (snd point)))"

definition calculateBoundingBox :: "ring \<Rightarrow> bbox option" where
  "calculateBoundingBox points =
     (case points of
        [] \<Rightarrow> None
      | p0 # _ \<Rightarrow>
          (case fold bboxStep points (fst p0, fst p0, snd p0, snd p0) of
             (mnLat, mxLat, mnLng, mxLng) \<Rightarrow>
               Some \<lparr>minLat = mnLat, maxLat = mxLat, minLng = mnLng, maxLng = mxLng,
                     width = mxLng - mnLng, height = mxLat - mnLat\<rparr>))"

text \<open>
  \<open>calculateAspectRatio\<close>: 0 when there is no box; otherwise the width in metres over
  the height in metres. There is no test of the height before the division.
\<close>

definition calculateAspectRatio :: "ring \<Rightarrow> jsnum" where
  "calculateAspectRatio points =
     (case calculateBoundingBox points of
        None \<Rightarrow> Fin 0
      | Some b \<Rightarrow>
          (let avgLat = (minLat b + maxLat b) / 2;
               latRad = avgLat * pi / 180;
               widthM = width b * 111320 * cos latRad;
               heightM = height b * 111320
           in js_div widthM heightM))"

section \<open>Area and perimeter, as \<open>map-script.js\<close> computes them\<close>

text \<open>
  The Shoelace loop \<open>for (i = 0; i < n; i++)\<close> with \<open>j = (i + 1) % n\<close>: one step
  adds \<open>points[i][1] * points[j][0]\<close> and subtracts \<open>points[j][1] * points[i][0]\<close>.
\<close>

definition shoelaceStep :: "ring \<Rightarrow> nat \<Rightarrow> real \<Rightarrow> real" where
  "shoelaceStep points i area =
     (let j = (i + 1) mod length points
      in area + snd (points ! i) * fst (points ! j) - snd (points ! j) * fst (points ! i))"

definition shoelaceLoop :: "ring \<Rightarrow> real" where
  "shoelaceLoop points = fold (shoelaceStep points) [0..<length points] 0"

text \<open>The sum of the latitudes, as \<open>reduce\<close> (or the second loop) adds them up.\<close>

definition latSum :: "ring \<Rightarrow> real" where
  "latSum points = fold (\<lambda>point sum. sum + fst point) points 0"

definition calculatePolygonArea :: "ring \<Rightarrow> real" where
  "calculatePolygonArea points =
     (if length points < 3 then 0
      else
        (let n = real (length points);
             area = \<bar>shoelaceLoop points\<bar> / 2;
             avgLat = latSum points / n;
             latRad = avgLat * pi / 180;
             metersPerDegreeLat = 111320;
             metersPerDegreeLng = 111320 * cos latRad
         in area * metersPerDegreeLat * metersPerDegreeLng / 1000000))"

text \<open>
  \<open>Math.atan2(y, x)\<close> on real arguments (there is no negative zero in the model).
\<close>

definition atan2 :: "real \<Rightarrow> real \<Rightarrow> real" where
  "atan2 y x =
     (if 0 < x then arctan (y / x)
      else if x < 0 then (if 0 \<le> y then arctan (y / x) + pi else arctan (y / x) - pi)
      else if 0 < y then pi / 2
      else if y < 0 then - (pi / 2)
      else 0)"

text \<open>
  The last two lines of the Haversine step: \<open>c = 2 * atan2(sqrt(a), sqrt(1 - a))\<close> and
  \<open>distance = 6371000 * c\<close>. \<open>Math.sqrt\<close> of a negative number is \<open>NaN\<close>, and
  \<open>NaN\<close> goes through \<open>atan2\<close> and the product.
\<close>

definition arcDistance :: "real \<Rightarrow> jsnum" where
  "arcDistance a =
     (if a < 0 \<or> 1 - a < 0 then NaN
      else Fin (6371000 * (2 * atan2 (sqrt a) (sqrt (1 - a)))))"

fun js_add :: "jsnum \<Rightarrow> jsnum \<Rightarrow> jsnum" where
  "js_add (Fin a) (Fin b) = Fin (a + b)"
| "js_add NaN v = NaN"
| "js_add u NaN = NaN"
| "js_add PosInf NegInf = NaN"
| "js_add NegInf PosInf = NaN"
| "js_add PosInf v = PosInf"
| "js_add u PosInf = PosInf"
| "js_add NegInf v = NegInf"
| "js_add u NegInf = NegInf"

text \<open>Multiplying by a positive constant: \<open>perimeter / 1000\<close>, \<open>perimeter * 0.001\<close>.\<close>

definition js_scale :: "real \<Rightarrow> jsnum \<Rightarrow> jsnum" where
  "js_scale k u = (case u of Fin a \<Rightarrow> Fin (a * k) | other \<Rightarrow> other)"

text \<open>
  One Haversine step of \<open>map-script.js\<close>: the cosine of \<open>lat1\<close> is taken from the
  start point \<open>points[i]\<close> of the edge.
\<close>

definition haversine :: "vertex \<Rightarrow> vertex \<Rightarrow> jsnum" where
  "haversine p q =
     (let lat1 = fst p * pi / 180;
          lat2 = fst q * pi / 180;
          deltaLat = lat2 - lat1;
          deltaLng = (snd q - snd p) * pi / 180;
          a = sin (deltaLat / 2) * sin (deltaLat / 2)
              + cos lat1 * cos lat2 * sin (deltaLng / 2) * sin (deltaLng / 2)
      in arcDistance a)"

definition perimeterStep :: "ring \<Rightarrow> nat \<Rightarrow> jsnum \<Rightarrow> jsnum" where
  "perimeterStep points i perimeter =
     (let j = (i + 1) mod length points
      in js_add perimeter (haversine (points ! i) (points ! j)))"

definition calculatePolygonPerimeter :: "ring \<Rightarrow> jsnum" where
  "calculatePolygonPerimeter points =
     js_scale (1 / 1000) (fold (perimeterStep points) [0..<length points] (Fin 0))"

section \<open>The measurement caches of the two cached variants\<close>

text \<open>
  A JavaScript \<open>Map\<close> keeps its entries in insertion order; it is an association list
  with the oldest entry first. \<open>set\<close> on a present key replaces the value in place, on
  an absent key appends.
\<close>

type_synonym 'v cache = "(string \<times> 'v) list"

definition cache_get :: "'v cache \<Rightarrow> string \<Rightarrow> 'v option" where
  "cache_get c k = map_of c k"

definition cache_set :: "'v cache \<Rightarrow> string \<Rightarrow> 'v \<Rightarrow> 'v cache" where
  "cache_set c k v =
     (if k \<in> fst ` set c then map (\<lambda>(k', v'). if k' = k then (k', v) else (k', v')) c
      else c @ [(k, v)])"

definition cache_delete :: "string \<Rightarrow> 'v cache \<Rightarrow> 'v cache" where
  "cache_delete k c = filter (\<lambda>(k', v'). k' \<noteq> k) c"

text \<open>
  The store at the end of both functions of \<open>part_000\<close>: below 50 entries the entry is
  set; otherwise the first 25 keys (\<open>Array.from(keys()).slice(0, 25)\<close>) are deleted one
  by one and then the entry is set.
\<close>

definition store50 :: "'v cache \<Rightarrow> string \<Rightarrow> 'v \<Rightarrow> 'v cache" where
  "store50 c k v =
     (if length c < 50 then cache_set c k v
      else
        (let keysToDelete = take 25 (map fst c)
         in cache_set (fold cache_delete keysToDelete c) k v))"

text \<open>The store of \<open>part_001\<close>: below 100 entries the entry is set; otherwise nothing happens.\<close>

definition store100 :: "'v cache \<Rightarrow> string \<Rightarrow> 'v \<Rightarrow> 'v cache" where
  "store100 c k v = (if length c < 100 then cache_set c k v else c)"

text \<open>
  The cache key: every coordinate through \<open>toFixed(6)\<close>, the two of a point joined by a
  comma, the points joined by a vertical bar. \<open>toFixed(6)\<close> prints the sign of a negative
  number, then the integer \<open>n\<close> nearest to \<open>|x| * 10^6\<close> (the larger one at a tie) with a
  point before its last six digits. (From \<open>10^21\<close> on JavaScript prints the number in
  exponent notation instead; such coordinates are outside this model of the key.)
\<close>

definition digitChar :: "nat \<Rightarrow> char" where
  "digitChar d = ''0123456789'' ! d"

function decimal :: "nat \<Rightarrow> string" where
  "decimal n = (if n < 10 then [digitChar n] else decimal (n div 10) @ [digitChar (n mod 10)])"
  by pat_completeness auto
termination
  by (relation "measure (\<lambda>n. n)") auto

definition toFixed6 :: "real \<Rightarrow> string" where
  "toFixed6 x =
     (let n = nat \<lfloor>\<bar>x\<bar> * 1000000 + 1 / 2\<rfloor>;
          m = n mod 1000000
      in (if x < 0 then ''-'' else [])
         @ decimal (n div 1000000) @ ''.''
         @ [digitChar (m div 100000 mod 10), digitChar (m div 10000 mod 10),
            digitChar (m div 1000 mod 10), digitChar (m div 100 mod 10),
            digitChar (m div 10 mod 10), digitChar (m mod 10)])"

fun joinWith :: "string \<Rightarrow> string list \<Rightarrow> string" where
  "joinWith sep [] = []"
| "joinWith sep [x] = x"
| "joinWith sep (x # y # ys) = x @ sep @ joinWith sep (y # ys)"

definition cacheKey :: "ring \<Rightarrow> string" where
  "cacheKey points = joinWith ''|'' (map (\<lambda>p. toFixed6 (fst p) @ '','' @ toFixed6 (snd p)) points)"

text \<open>
  The computation of \<open>calculatePolygonArea\<close> in \<open>part_000\<close> and \<open>part_001\<close>, between
  the cache lookup and the cache store.
\<close>

definition areaKm2_p0 :: "ring \<Rightarrow> real" where
  "areaKm2_p0 points =
     (let n = real (length points);
          area = \<bar>shoelaceLoop points\<bar> * 0.5;
          avgLat = latSum points / n;
          latRad = avgLat * pi / 180;
          metersPerDegreeLat = 111320;
          metersPerDegreeLng = metersPerDegreeLat * cos latRad;
          conversionFactor = metersPerDegreeLat * metersPerDegreeLng / 1000000
      in area * conversionFactor)"

text \<open>
  \<open>calculatePolygonArea\<close> of \<open>part_000\<close>: the length test, the cache lookup, the
  computation, the store. The cache is passed in and returned.
\<close>

definition calculatePolygonArea_p0 :: "real cache \<Rightarrow> ring \<Rightarrow> real \<times> real cache" where
  "calculatePolygonArea_p0 areaCalculationCache points =
     (if length points < 3 then (0, areaCalculationCache)
      else
        (case cache_get areaCalculationCache (cacheKey points) of
           Some cached \<Rightarrow> (cached, areaCalculationCache)
         | None \<Rightarrow>
             (areaKm2_p0 points,
              store50 areaCalculationCache (cacheKey points) (areaKm2_p0 points))))"

text \<open>\<open>calculatePolygonArea\<close> of \<open>part_001\<close>: the same, with the other store.\<close>

definition calculatePolygonArea_p1 :: "real cache \<Rightarrow> ring \<Rightarrow> real \<times> real cache" where
  "calculatePolygonArea_p1 areaCalculationCache points =
     (if length points < 3 then (0, areaCalculationCache)
      else
        (case cache_get areaCalculationCache (cacheKey points) of
           Some cached \<Rightarrow> (cached, areaCalculationCache)
         | None \<Rightarrow>
             (areaKm2_p0 points,
              store100 areaCalculationCache (cacheKey points) (areaKm2_p0 points))))"

text \<open>
  The Haversine step of \<open>part_000\<close> and \<open>part_001\<close>: \<open>cosLat1\<close> is computed once,
  before the loop, from \<open>points[0]\<close>, and used for every edge. The computation is
  reached with at least 2 points only, so \<open>points[0]\<close> exists.
\<close>

definition haversine_p0 :: "real \<Rightarrow> vertex \<Rightarrow> vertex \<Rightarrow> jsnum" where
  "haversine_p0 cosLat1 p q =
     (let lat1 = fst p * pi / 180;
          lat2 = fst q * pi / 180;
          deltaLat = lat2 - lat1;
          deltaLng = (snd q - snd p) * pi / 180;
          sinDeltaLat = sin (deltaLat * 0.5);
          sinDeltaLng = sin (deltaLng * 0.5);
          cosLat2 = cos lat2;
          a = sinDeltaLat * sinDeltaLat + cosLat1 * cosLat2 * sinDeltaLng * sinDeltaLng
      in arcDistance a)"

definition perimeterStep_p0 :: "real \<Rightarrow> ring \<Rightarrow> nat \<Rightarrow> jsnum \<Rightarrow> jsnum" where
  "perimeterStep_p0 cosLat1 points i perimeter =
     (let j = (i + 1) mod length points
      in js_add perimeter (haversine_p0 cosLat1 (points ! i) (points ! j)))"

definition perimeterKm_p0 :: "ring \<Rightarrow> jsnum" where
  "perimeterKm_p0 points =
     (let cosLat1 = cos (fst (points ! 0) * pi / 180)
      in js_scale 0.001 (fold (perimeterStep_p0 cosLat1 points) [0..<length points] (Fin 0)))"

definition calculatePolygonPerimeter_p0 :: "jsnum cache \<Rightarrow> ring \<Rightarrow> jsnum \<times> jsnum cache" where
  "calculatePolygonPerimeter_p0 perimeterCalculationCache points =
     (if length points < 2 then (Fin 0, perimeterCalculationCache)
      else
        (case cache_get perimeterCalculationCache (cacheKey points) of
           Some cached \<Rightarrow> (cached, perimeterCalculationCache)
         | None \<Rightarrow>
             (perimeterKm_p0 points,
              store50 perimeterCalculationCache (cacheKey points) (perimeterKm_p0 points))))"

definition calculatePolygonPerimeter_p1 :: "jsnum cache \<Rightarrow> ring \<Rightarrow> jsnum \<times> jsnum cache" where
  "calculatePolygonPerimeter_p1 perimeterCalculationCache points =
     (if length points < 2 then (Fin 0, perimeterCalculationCache)
      else
        (case cache_get perimeterCalculationCache (cacheKey points) of
           Some cached \<Rightarrow> (cached, perimeterCalculationCache)
         | None \<Rightarrow>
             (perimeterKm_p0 points,
              store100 perimeterCalculationCache (cacheKey points) (perimeterKm_p0 points))))"

section \<open>The coordinate checker of \<open>part_000\<close>\<close>

text \<open>
  A repair function returns an array, returns \<open>null\<close>, or throws: reading index 0 of
  \<open>undefined\<close> (the first element of an empty array) is a \<open>TypeError\<close>. A
  \<open>try\<close>/\<open>catch\<close> around a body turns the exception into \<open>null\<close>.
\<close>

datatype attempt = Threw | Null | Got ring

definition catchNull :: "attempt \<Rightarrow> attempt" where
  "catchNull r = (case r of Threw \<Rightarrow> Null | other \<Rightarrow> other)"

text \<open>
  \<open>const r = f(); if (r) return r;\<close> followed by the rest: an array (also an empty
  one) is truthy and is returned, an exception leaves the function at once.
\<close>

definition orElse :: "attempt \<Rightarrow> attempt \<Rightarrow> attempt" where
  "orElse r rest = (case r of Null \<Rightarrow> rest | other \<Rightarrow> other)"

text \<open>The test \<open>Math.abs(v[0]) <= 90 && Math.abs(v[1]) <= 180\<close>.\<close>

definition plausible :: "vertex \<Rightarrow> bool" where
  "plausible v \<longleftrightarrow> \<bar>fst v\<bar> \<le> 90 \<and> \<bar>snd v\<bar> \<le> 180"

definition swapPt :: "vertex \<Rightarrow> vertex" where
  "swapPt coord = (snd coord, fst coord)"

definition scalePt :: "real \<Rightarrow> vertex \<Rightarrow> vertex" where
  "scalePt scale coord = (fst coord / scale, snd coord / scale)"

definition swapScalePt :: "real \<Rightarrow> vertex \<Rightarrow> vertex" where
  "swapScalePt scale coord = (snd coord / scale, fst coord / scale)"

definition offsetPt :: "real \<Rightarrow> vertex \<Rightarrow> vertex" where
  "offsetPt offset coord = (fst coord - offset, snd coord - offset)"

text \<open>
  The common shape of the repairs: map every vertex, read the first mapped vertex, and
  return the mapped list when that vertex is plausible.
\<close>

definition acceptMapped :: "(vertex \<Rightarrow> vertex) \<Rightarrow> ring \<Rightarrow> attempt" where
  "acceptMapped f coordinates =
     (case map f coordinates of
        [] \<Rightarrow> Threw
      | first # rest \<Rightarrow> if plausible first then Got (first # rest) else Null)"

text \<open>\<open>for (const scale of scaleFactors) { ... if (plausible) return scaledCoords; } return null;\<close>\<close>

fun tryEach :: "(real \<Rightarrow> vertex \<Rightarrow> vertex) \<Rightarrow> real list \<Rightarrow> ring \<Rightarrow> attempt" where
  "tryEach f [] coordinates = Null"
| "tryEach f (scale # scales) coordinates =
     orElse (acceptMapped (f scale) coordinates) (tryEach f scales coordinates)"

definition tryScalingTransform :: "ring \<Rightarrow> attempt" where
  "tryScalingTransform coordinates =
     tryEach scalePt [10000000, 1000000, 100000, 10000, 1000, 100, 10] coordinates"

definition trySwapTransform :: "ring \<Rightarrow> attempt" where
  "trySwapTransform coordinates = acceptMapped swapPt coordinates"

definition tryOffsetTransform :: "ring \<Rightarrow> attempt" where
  "tryOffsetTransform coordinates =
     tryEach offsetPt [10000000, 1000000, 100000, 10000, 1000] coordinates"

text \<open>
  \<open>tryMixedTransform\<close> scales and then swaps; the first vertex of the swapped list
  is the one tested.
\<close>

definition tryMixedTransform :: "ring \<Rightarrow> attempt" where
  "tryMixedTransform coordinates =
     tryEach (\<lambda>scale. swapPt \<circ> scalePt scale) [1000000, 100000, 10000, 1000] coordinates"

text \<open>
  \<open>trySimpleScaling\<close>: the first vertex is read, then the four transformations are
  run in the order of the array literal, and the first result that is not \<open>null\<close> is
  returned. (\<open>analyzeCoordinateSystem\<close> only computes a record that is logged.)
\<close>

definition trySimpleScaling :: "ring \<Rightarrow> attempt" where
  "trySimpleScaling coordinates =
     catchNull
       (case coordinates of
          [] \<Rightarrow> Threw
        | firstCoord # _ \<Rightarrow>
            orElse (tryScalingTransform coordinates)
              (orElse (trySwapTransform coordinates)
                (orElse (tryOffsetTransform coordinates)
                  (orElse (tryMixedTransform coordinates) Null))))"

text \<open>
  The inverse Transverse Mercator step shared by \<open>convertUTMToWGS84\<close> and
  \<open>tryConvertMinnaDatum\<close>, with the semi-major axis \<open>a\<close> and the squared eccentricity
  \<open>e2\<close> of the ellipsoid. The central meridian, a number of degrees, is added to the
  \<open>atan2\<close> value and the sum is multiplied by \<open>180 / pi\<close>, as in the source.
\<close>

definition inverseTM :: "real \<Rightarrow> real \<Rightarrow> real \<Rightarrow> vertex \<Rightarrow> vertex" where
  "inverseTM a e2 centralMeridian coord =
     (let falseEasting = 500000;
          falseNorthing = 0;
          scaleFactor = 0.9996;
          x = fst coord - falseEasting;
          y = snd coord - falseNorthing;
          mu = y / (a * scaleFactor * (1 - e2 / 4 - 3 * e2 * e2 / 64 - 5 * e2 * e2 * e2 / 256));
          e1 = (1 - sqrt (1 - e2)) / (1 + sqrt (1 - e2));
          lat1 = mu + (3 * e1 / 2 - 27 * e1 * e1 * e1 / 32) * sin (2 * mu)
                    + (21 * e1 * e1 / 16 - 55 * e1 * e1 * e1 * e1 / 32) * sin (4 * mu)
                    + (151 * e1 * e1 * e1 / 96) * sin (6 * mu);
          lng = centralMeridian
                + atan2 x (a * scaleFactor * (1 - e2 * sin lat1 * sin lat1) * cos lat1);
          lat = lat1 * 180 / pi;
          lngDeg = lng * 180 / pi
      in (lat, lngDeg))"

definition utmPt :: "real \<Rightarrow> vertex \<Rightarrow> vertex" where
  "utmPt centralMeridian coord = inverseTM 6378137 0.00669438 centralMeridian coord"

definition convertUTMToWGS84 :: "ring \<Rightarrow> nat \<Rightarrow> real \<Rightarrow> attempt" where
  "convertUTMToWGS84 coordinates zone centralMeridian =
     catchNull (acceptMapped (utmPt centralMeridian) coordinates)"

definition utmZones :: "(nat \<times> real) list" where
  "utmZones = [(32, 9), (31, 3), (33, 15), (18, -75), (19, -69), (10, -123), (11, -117)]"

fun tryZones :: "(nat \<times> real) list \<Rightarrow> ring \<Rightarrow> attempt" where
  "tryZones [] coordinates = Null"
| "tryZones (utmZone # zones) coordinates =
     orElse (convertUTMToWGS84 coordinates (fst utmZone) (snd utmZone))
       (tryZones zones coordinates)"

definition tryConvertUTMCoordinates :: "ring \<Rightarrow> attempt" where
  "tryConvertUTMCoordinates coordinates =
     catchNull
       (case coordinates of
          [] \<Rightarrow> Threw
        | firstCoord # _ \<Rightarrow>
            if \<bar>fst firstCoord\<bar> > 100000 \<and> \<bar>snd firstCoord\<bar> > 100000
            then tryZones utmZones coordinates
            else Null)"

definition minnaPt :: "vertex \<Rightarrow> vertex" where
  "minnaPt coord =
     (let converted = inverseTM 6378249.145 0.006722670 9 coord;
          latShift = 0.0001;
          lngShift = 0.0001
      in (fst converted + latShift, snd converted + lngShift))"

definition tryConvertMinnaDatum :: "ring \<Rightarrow> attempt" where
  "tryConvertMinnaDatum coordinates =
     catchNull
       (case coordinates of
          [] \<Rightarrow> Threw
        | firstCoord # _ \<Rightarrow>
            if fst firstCoord \<ge> 100000 \<and> fst firstCoord \<le> 900000
               \<and> snd firstCoord \<ge> 100000 \<and> snd firstCoord \<le> 1200000
            then acceptMapped minnaPt coordinates
            else Null)"

text \<open>
  \<open>tryGenericCoordinateTransform\<close>: two guarded loops over the same five scales, first
  plain scaling, then scaling with the axes swapped.
\<close>

definition tryGenericCoordinateTransform :: "ring \<Rightarrow> attempt" where
  "tryGenericCoordinateTransform coordinates =
     catchNull
       (case coordinates of
          [] \<Rightarrow> Threw
        | firstCoord # _ \<Rightarrow>
            orElse
              (if \<bar>fst firstCoord\<bar> > 10000 \<or> \<bar>snd firstCoord\<bar> > 10000
               then tryEach scalePt [1000000, 100000, 10000, 1000, 100] coordinates
               else Null)
              (if \<bar>fst firstCoord\<bar> > 10000 \<or> \<bar>snd firstCoord\<bar> > 10000
               then tryEach swapScalePt [1000000, 100000, 10000, 1000, 100] coordinates
               else Null))"

text \<open>
  The notifications \<open>validateAndFixCoordinates\<close> can show, one constructor for each
  message; the numbers a message prints are its arguments. \<open>showNotification\<close> and
  \<open>console.log\<close> are taken not to throw; the console output is not modelled.
\<close>

datatype notification =
    SwapCorrected
  | SimpleScalingConverted
  | UTMConverted
  | MinnaDatumConverted
  | GenericConverted
  | ProjectionError
  | CoordinateRanges jsnum jsnum jsnum jsnum
  | DifferentSystemWarning
  | FarFromViewWarning real real

datatype notifyLevel = Info | Success | Warning | Error

fun levelOf :: "notification \<Rightarrow> notifyLevel" where
  "levelOf SwapCorrected = Info"
| "levelOf SimpleScalingConverted = Success"
| "levelOf UTMConverted = Success"
| "levelOf MinnaDatumConverted = Success"
| "levelOf GenericConverted = Success"
| "levelOf ProjectionError = Error"
| "levelOf (CoordinateRanges a b c d) = Warning"
| "levelOf DifferentSystemWarning = Warning"
| "levelOf (FarFromViewWarning a b) = Warning"

text \<open>
  The argument and the return value of the checker: \<open>null\<close>, \<open>undefined\<close> or an array
  of vertices. The outcome of a call is the returned value and the notifications shown,
  in order.
\<close>

datatype coords = JNull | JUndefined | JArray ring

record outcome =
  returned :: coords
  shown :: "notification list"

text \<open>
  \<open>Math.min(...xs)\<close> and \<open>Math.max(...xs)\<close>; without arguments they are
  \<open>Infinity\<close> and \<open>-Infinity\<close>.
\<close>

fun minOf :: "real list \<Rightarrow> jsnum" where
  "minOf [] = PosInf"
| "minOf (x # xs) = Fin (fold min xs x)"

fun maxOf :: "real list \<Rightarrow> jsnum" where
  "maxOf [] = NegInf"
| "maxOf (x # xs) = Fin (fold max xs x)"

text \<open>
  The part of \<open>validateAndFixCoordinates\<close> entered when \<open>|lat| > 1000\<close> or
  \<open>|lng| > 1000\<close>: four attempts, each returned with its notification when it
  succeeds, and after them the error, the ranges, and \<open>null\<close>.
\<close>

definition projectedChain :: "ring \<Rightarrow> outcome" where
  "projectedChain coordinates =
     (case trySimpleScaling coordinates of
        Got scaledCoords \<Rightarrow> \<lparr>returned = JArray scaledCoords, shown = [SimpleScalingConverted]\<rparr>
      | _ \<Rightarrow>
     (case tryConvertUTMCoordinates coordinates of
        Got convertedCoords \<Rightarrow> \<lparr>returned = JArray convertedCoords, shown = [UTMConverted]\<rparr>
      | _ \<Rightarrow>
     (case tryConvertMinnaDatum coordinates of
        Got minnaCoords \<Rightarrow> \<lparr>returned = JArray minnaCoords, shown = [MinnaDatumConverted]\<rparr>
      | _ \<Rightarrow>
     (case tryGenericCoordinateTransform coordinates of
        Got genericCoords \<Rightarrow> \<lparr>returned = JArray genericCoords, shown = [GenericConverted]\<rparr>
      | _ \<Rightarrow>
          \<lparr>returned = JNull,
           shown = [ProjectionError,
                    CoordinateRanges (minOf (map fst coordinates)) (maxOf (map fst coordinates))
                      (minOf (map snd coordinates)) (maxOf (map snd coordinates))]\<rparr>))))"

text \<open>
  \<open>validateAndFixCoordinates\<close> of \<open>part_000\<close>. \<open>mapCenter\<close> is what
  \<open>map.getCenter()\<close> returns, as \<open>(lat, lng)\<close>.
\<close>

definition validateAndFixCoordinates :: "vertex \<Rightarrow> coords \<Rightarrow> outcome" where
  "validateAndFixCoordinates mapCenter arg =
     (case arg of
        JNull \<Rightarrow> \<lparr>returned = JNull, shown = []\<rparr>
      | JUndefined \<Rightarrow> \<lparr>returned = JUndefined, shown = []\<rparr>
      | JArray [] \<Rightarrow> \<lparr>returned = JArray [], shown = []\<rparr>
      | JArray (firstCoord # others) \<Rightarrow>
          (let coordinates = firstCoord # others;
               lat = fst firstCoord;
               lng = snd firstCoord;
               isValidWGS84 = (\<bar>lat\<bar> \<le> 90 \<and> \<bar>lng\<bar> \<le> 180)
           in
             if \<not> isValidWGS84 then
               (let swappedLat = snd firstCoord; swappedLng = fst firstCoord in
                if \<bar>swappedLat\<bar> \<le> 90 \<and> \<bar>swappedLng\<bar> \<le> 180
                then \<lparr>returned = JArray (map swapPt coordinates), shown = [SwapCorrected]\<rparr>
                else if \<bar>lat\<bar> > 1000 \<or> \<bar>lng\<bar> > 1000
                then projectedChain coordinates
                else if \<bar>lat\<bar> > 90 \<or> \<bar>lng\<bar> > 180
                then \<lparr>returned = JArray coordinates, shown = [DifferentSystemWarning]\<rparr>
                else \<lparr>returned = JArray coordinates, shown = []\<rparr>)
             else
               (let distanceFromCenter =
                      sqrt ((lat - fst mapCenter) ^ 2 + (lng - snd mapCenter) ^ 2)
                in if distanceFromCenter > 20
                   then \<lparr>returned = JArray coordinates, shown = [FarFromViewWarning lat lng]\<rparr>
                   else \<lparr>returned = JArray coordinates, shown = []\<rparr>)))"

text \<open>
  The same part of the checker with the attempts it makes written down. The four
  transformations of \<open>trySimpleScaling\<close> are the entries of its array
  \<open>transformations\<close>, each with its name; the loop over the array calls one entry after
  the other and returns the first result that is not \<open>null\<close>. \<open>runSteps\<close> is that
  loop: it gives the names of the entries it has called, in order, and the result.
\<close>

datatype repairStep =
    SimpleScaling
  | CoordinateSwap
  | OffsetCorrection
  | MixedTransform
  | UTMConversion
  | MinnaDatumConversion
  | GenericTransform

fun runSteps :: "(repairStep \<times> (ring \<Rightarrow> attempt)) list \<Rightarrow> ring \<Rightarrow> repairStep list \<times> attempt" where
  "runSteps [] coordinates = ([], Null)"
| "runSteps (transform # rest) coordinates =
     (case snd transform coordinates of
        Null \<Rightarrow> (fst transform # fst (runSteps rest coordinates), snd (runSteps rest coordinates))
      | result \<Rightarrow> ([fst transform], result))"

definition transformations :: "(repairStep \<times> (ring \<Rightarrow> attempt)) list" where
  "transformations =
     [(SimpleScaling, tryScalingTransform),
      (CoordinateSwap, trySwapTransform),
      (OffsetCorrection, tryOffsetTransform),
      (MixedTransform, tryMixedTransform)]"

definition trySimpleScaling_log :: "ring \<Rightarrow> repairStep list \<times> attempt" where
  "trySimpleScaling_log coordinates =
     (case coordinates of
        [] \<Rightarrow> ([], Null)
      | firstCoord # _ \<Rightarrow>
          (fst (runSteps transformations coordinates),
           catchNull (snd (runSteps transformations coordinates))))"

text \<open>
  The part of \<open>validateAndFixCoordinates\<close> entered when \<open>|lat| > 1000\<close> or
  \<open>|lng| > 1000\<close>, with the attempts made: those of \<open>trySimpleScaling\<close>, then the
  UTM conversion, the Minna conversion and the generic transformation, each only when
  all before it have returned \<open>null\<close>.
\<close>

definition projectedChain_log :: "ring \<Rightarrow> repairStep list \<times> outcome" where
  "projectedChain_log coordinates =
     (let tried1 = fst (trySimpleScaling_log coordinates);
          tried2 = tried1 @ [UTMConversion];
          tried3 = tried2 @ [MinnaDatumConversion];
          tried4 = tried3 @ [GenericTransform]
      in
     (case snd (trySimpleScaling_log coordinates) of
        Got scaledCoords \<Rightarrow>
          (tried1, \<lparr>returned = JArray scaledCoords, shown = [SimpleScalingConverted]\<rparr>)
      | _ \<Rightarrow>
     (case tryConvertUTMCoordinates coordinates of
        Got convertedCoords \<Rightarrow>
          (tried2, \<lparr>returned = JArray convertedCoords, shown = [UTMConverted]\<rparr>)
      | _ \<Rightarrow>
     (case tryConvertMinnaDatum coordinates of
        Got minnaCoords \<Rightarrow>
          (tried3, \<lparr>returned = JArray minnaCoords, shown = [MinnaDatumConverted]\<rparr>)
      | _ \<Rightarrow>
     (case tryGenericCoordinateTransform coordinates of
        Got genericCoords \<Rightarrow>
          (tried4, \<lparr>returned = JArray genericCoords, shown = [GenericConverted]\<rparr>)
      | _ \<Rightarrow>
          (tried4,
           \<lparr>returned = JNull,
            shown = [ProjectionError,
                     CoordinateRanges (minOf (map fst coordinates)) (maxOf (map fst coordinates))
                       (minOf (map snd coordinates)) (maxOf (map snd coordinates))]\<rparr>))))))"

section \<open>The coordinate checker of \<open>part_001\<close>\<close>

text \<open>
  The older checker knows the swap only; when the swap does not help it shows a warning
  and returns its argument.
\<close>

definition validateAndFixCoordinates_p1 :: "coords \<Rightarrow> outcome" where
  "validateAndFixCoordinates_p1 arg =
     (case arg of
        JNull \<Rightarrow> \<lparr>returned = JNull, shown = []\<rparr>
      | JUndefined \<Rightarrow> \<lparr>returned = JUndefined, shown = []\<rparr>
      | JArray [] \<Rightarrow> \<lparr>returned = JArray [], shown = []\<rparr>
      | JArray (firstCoord # others) \<Rightarrow>
          (let coordinates = firstCoord # others;
               lat = fst firstCoord;
               lng = snd firstCoord
           in
             if (\<bar>lat\<bar> > 90 \<or> \<bar>lng\<bar> > 180) \<and> plausible (swapPt firstCoord)
             then \<lparr>returned = JArray (map swapPt coordinates), shown = [SwapCorrected]\<rparr>
             else if \<bar>lat\<bar> > 90 \<or> \<bar>lng\<bar> > 180
             then \<lparr>returned = JArray coordinates, shown = [DifferentSystemWarning]\<rparr>
             else \<lparr>returned = JArray coordinates, shown = []\<rparr>))"

section \<open>The last-resort correction of \<open>part_000\<close>\<close>

text \<open>
  The first loop of \<open>tryAggressiveCorrection\<close>: at each scale, plain scaling is tried
  before scaling with the axes swapped.
\<close>

fun tryExtremeScales :: "real list \<Rightarrow> ring \<Rightarrow> attempt" where
  "tryExtremeScales [] coordinates = Null"
| "tryExtremeScales (scale # scales) coordinates =
     orElse (acceptMapped (scalePt scale) coordinates)
       (orElse (acceptMapped (swapScalePt scale) coordinates)
          (tryExtremeScales scales coordinates))"

text \<open>
  The relocation of a list with first vertex \<open>firstCoord\<close> and further vertices
  \<open>others\<close>: the list is centred on its vertex mean, each axis is scaled down so that
  its range is at most 10, and the result is placed at \<open>(8, 8)\<close>. Index 0 of the
  result is built from index 1 of the input and the other way round.
\<close>

definition relocatePt :: "vertex \<Rightarrow> ring \<Rightarrow> vertex \<Rightarrow> vertex" where
  "relocatePt firstCoord others coord =
     (let coordinates = firstCoord # others;
          n = real (length coordinates);
          centerX = fold (\<lambda>coord sum. sum + fst coord) coordinates 0 / n;
          centerY = fold (\<lambda>coord sum. sum + snd coord) coordinates 0 / n;
          maxX = fold max (map fst others) (fst firstCoord);
          minX = fold min (map fst others) (fst firstCoord);
          maxY = fold max (map snd others) (snd firstCoord);
          minY = fold min (map snd others) (snd firstCoord);
          rangeX = maxX - minX;
          rangeY = maxY - minY;
          scaleX = (if rangeX > 0 then min (10 / rangeX) 1 else 1);
          scaleY = (if rangeY > 0 then min (10 / rangeY) 1 else 1);
          centeredX = (fst coord - centerX) * scaleX;
          centeredY = (snd coord - centerY) * scaleY;
          lat = 8.0 + centeredY;
          lng = 8.0 + centeredX
      in (lat, lng))"

definition tryAggressiveCorrection :: "ring \<Rightarrow> attempt" where
  "tryAggressiveCorrection coordinates =
     catchNull
       (case coordinates of
          [] \<Rightarrow> Threw
        | firstCoord # others \<Rightarrow>
            orElse (tryExtremeScales [10000000, 1000000, 100000, 10000, 1000, 100, 10, 1] coordinates)
              (orElse (tryEach offsetPt [1000000, 100000, 10000, 1000] coordinates)
                 (Got (map (relocatePt firstCoord others) coordinates))))"

text \<open>
  The state of a measurement cache between calls: the keys are distinct (it is a
  \<open>Map\<close>) and there are at most \<open>cap\<close> entries.
\<close>

definition cacheInv :: "nat \<Rightarrow> 'v cache \<Rightarrow> bool" where
  "cacheInv cap c \<longleftrightarrow> distinct (map fst c) \<and> length c \<le> cap"

text \<open>
  A family of triangles for concrete cache states: triangle \<open>i\<close> has its first
  latitude at \<open>-1 - i\<close>. \<open>sampleAreaCache n\<close> holds the entries of the first \<open>n\<close> of
  them, in order.
\<close>

definition sampleRing :: "nat \<Rightarrow> ring" where
  "sampleRing i = [(- 1 - real i, 0), (0, 1), (1, 1)]"

definition sampleAreaCache :: "nat \<Rightarrow> real cache" where
  "sampleAreaCache n = map (\<lambda>i. (cacheKey (sampleRing i), areaKm2_p0 (sampleRing i))) [0..<n]"

section \<open>Reference formulas\<close>

text \<open>
  The formulas the description of the measurement functions names, written without
  loops: the Shoelace sum over the cyclic edges in the \<open>(lng, lat)\<close> plane, the
  arithmetic mean of the latitudes, and the conversion from square degrees.
\<close>

definition shoelaceSum :: "ring \<Rightarrow> real" where
  "shoelaceSum points =
     (\<Sum>i<length points.
        snd (points ! i) * fst (points ! ((i + 1) mod length points))
        - snd (points ! ((i + 1) mod length points)) * fst (points ! i))"

definition meanLat :: "ring \<Rightarrow> real" where
  "meanLat points = sum_list (map fst points) / real (length points)"

definition shoelaceAreaKm2 :: "ring \<Rightarrow> real" where
  "shoelaceAreaKm2 points =
     \<bar>shoelaceSum points\<bar> / 2 * ((111320 * 111320 * cos (meanLat points * pi / 180)) / 1000000)"


definition vertexMaps :: "ring \<Rightarrow> (vertex \<Rightarrow> vertex) set" where
  "vertexMaps coordinates =
     {swapPt, minnaPt}
     \<union> (case coordinates of [] \<Rightarrow> {} | firstCoord # others \<Rightarrow> {relocatePt firstCoord others})
     \<union> range scalePt \<union> range swapScalePt \<union> range offsetPt \<union> range utmPt"

text \<open>
  What a successful repair returns: the argument was not empty, the result has its length
  and is the argument mapped by one of the vertex maps, and the first mapped vertex is
  plausible.
\<close>

definition repaired :: "ring \<Rightarrow> ring \<Rightarrow> bool" where
  "repaired coordinates r \<longleftrightarrow>
     coordinates \<noteq> [] \<and> length r = length coordinates
     \<and> (\<exists>f\<in>vertexMaps coordinates. r = map f coordinates \<and> plausible (f (hd coordinates)))"


text \<open>
  The order of the attempts as the code makes them, each name with the function it
  stands for.
\<close>

definition repairOrder :: "(repairStep \<times> (ring \<Rightarrow> attempt)) list" where
  "repairOrder =
     [(SimpleScaling, tryScalingTransform),
      (CoordinateSwap, trySwapTransform),
      (OffsetCorrection, tryOffsetTransform),
      (MixedTransform, tryMixedTransform),
      (UTMConversion, tryConvertUTMCoordinates),
      (MinnaDatumConversion, tryConvertMinnaDatum),
      (GenericTransform, tryGenericCoordinateTransform)]"

text \<open>
  The notification shown when a step has succeeded (the four transformations of
  \<open>trySimpleScaling\<close> share one), the outcome when no step has, and the outcome of the
  steps run in order.
\<close>

fun successNotification :: "repairStep \<Rightarrow> notification" where
  "successNotification UTMConversion = UTMConverted"
| "successNotification MinnaDatumConversion = MinnaDatumConverted"
| "successNotification GenericTransform = GenericConverted"
| "successNotification step = SimpleScalingConverted"

definition failureOutcome :: "ring \<Rightarrow> outcome" where
  "failureOutcome coordinates =
     \<lparr>returned = JNull,
      shown = [ProjectionError,
               CoordinateRanges (minOf (map fst coordinates)) (maxOf (map fst coordinates))
                 (minOf (map snd coordinates)) (maxOf (map snd coordinates))]\<rparr>"

definition chainOutcome :: "ring \<Rightarrow> outcome" where
  "chainOutcome coordinates =
     (case snd (runSteps repairOrder coordinates) of
        Got r \<Rightarrow>
          \<lparr>returned = JArray r,
           shown = [successNotification (last (fst (runSteps repairOrder coordinates)))]\<rparr>
      | _ \<Rightarrow> failureOutcome coordinates)"

text \<open>
  The area cache after a sequence of calls, starting from the empty cache the page is
  loaded with: every call hands its cache to the next one.
\<close>

definition areaCacheAfter_p0 :: "ring list \<Rightarrow> real cache" where
  "areaCacheAfter_p0 calls = fold (\<lambda>points c. snd (calculatePolygonArea_p0 c points)) calls []"

definition areaCacheAfter_p1 :: "ring list \<Rightarrow> real cache" where
  "areaCacheAfter_p1 calls = fold (\<lambda>points c. snd (calculatePolygonArea_p1 c points)) calls []"

text \<open>
  An area cache comes from the lists \<open>S\<close> when every value in it is the area formula of
  a list of \<open>S\<close> that has at least 3 vertices and the entry's key.
\<close>

definition areaCacheFrom :: "ring set \<Rightarrow> real cache \<Rightarrow> bool" where
  "areaCacheFrom S c \<longleftrightarrow>
     (\<forall>k v. (k, v) \<in> set c \<longrightarrow> (\<exists>R\<in>S. 3 \<le> length R \<and> cacheKey R = k \<and> v = shoelaceAreaKm2 R))"

text \<open>The cyclic edges of a vertex list: every vertex with its successor, the last with the first.\<close>

definition edges :: "'a list \<Rightarrow> ('a \<times> 'a) list" where
  "edges ps = zip ps (rotate1 ps)"

text \<open>
  The Haversine term of an edge and the great-circle length it gives, in metres, without
  the test for \<open>NaN\<close>.
\<close>

definition havA :: "vertex \<Rightarrow> vertex \<Rightarrow> real" where
  "havA p q =
     sin ((fst q * pi / 180 - fst p * pi / 180) / 2) * sin ((fst q * pi / 180 - fst p * pi / 180) / 2)
     + cos (fst p * pi / 180) * cos (fst q * pi / 180)
       * sin ((snd q - snd p) * pi / 180 / 2) * sin ((snd q - snd p) * pi / 180 / 2)"

definition greatCircle :: "vertex \<times> vertex \<Rightarrow> real" where
  "greatCircle e =
     6371000 * (2 * atan2 (sqrt (havA (fst e) (snd e))) (sqrt (1 - havA (fst e) (snd e))))"

text \<open>The Shoelace term of one edge.\<close>

definition cross :: "vertex \<times> vertex \<Rightarrow> real" where
  "cross e = snd (fst e) * fst (snd e) - snd (snd e) * fst (fst e)"

section \<open>Bounding box: the fold computes the extremes\<close>

lemma fold_bboxStep:
  "fold bboxStep ps (a, b, c, d) =
     (fold (\<lambda>p m. min m (fst p)) ps a, fold (\<lambda>p m. max m (fst p)) ps b,
      fold (\<lambda>p m. min m (snd p)) ps c, fold (\<lambda>p m. max m (snd p)) ps d)"
  by (induction ps arbitrary: a b c d) (simp_all add: bboxStep_def)

lemma fold_min_Min:
  "fold (\<lambda>p m. min m (f p)) ps (a::real) = Min (insert a (f ` set ps))"
proof (induction ps arbitrary: a)
  case Nil
  show ?case by simp
next
  case (Cons p ps)
  have "Min (insert (min a (f p)) (f ` set ps)) = Min (insert a (insert (f p) (f ` set ps)))"
    by (cases "set ps = {}") (simp_all add: min.assoc)
  with Cons show ?case by simp
qed

lemma fold_max_Max:
  "fold (\<lambda>p m. max m (f p)) ps (a::real) = Max (insert a (f ` set ps))"
proof (induction ps arbitrary: a)
  case Nil
  show ?case by simp
next
  case (Cons p ps)
  have "Max (insert (max a (f p)) (f ` set ps)) = Max (insert a (insert (f p) (f ` set ps)))"
    by (cases "set ps = {}") (simp_all add: max.assoc)
  with Cons show ?case by simp
qed

lemma calculateBoundingBox_Nil: "calculateBoundingBox [] = None"
  by (simp add: calculateBoundingBox_def)

lemma calculateBoundingBox_extremes:
  assumes "points \<noteq> []"
  shows "calculateBoundingBox points =
           Some \<lparr>minLat = Min (fst ` set points), maxLat = Max (fst ` set points),
                 minLng = Min (snd ` set points), maxLng = Max (snd ` set points),
                 width = Max (snd ` set points) - Min (snd ` set points),
                 height = Max (fst ` set points) - Min (fst ` set points)\<rparr>"
proof -
  from assms obtain p0 ps where points: "points = p0 # ps"
    by (cases points) auto
  have ins: "insert (g p0) (g ` set points) = g ` set points" for g :: "vertex \<Rightarrow> real"
    by (auto simp: points)
  have f: "fold bboxStep points (fst p0, fst p0, snd p0, snd p0) =
             (Min (fst ` set points), Max (fst ` set points),
              Min (snd ` set points), Max (snd ` set points))"
    by (simp only: fold_bboxStep fold_min_Min fold_max_Max ins)
  have "calculateBoundingBox points =
          (case fold bboxStep points (fst p0, fst p0, snd p0, snd p0) of
             (mnLat, mxLat, mnLng, mxLng) \<Rightarrow>
               Some \<lparr>minLat = mnLat, maxLat = mxLat, minLng = mnLng, maxLng = mxLng,
                     width = mxLng - mnLng, height = mxLat - mnLat\<rparr>)"
    unfolding calculateBoundingBox_def by (simp only: points list.case)
  then show ?thesis
    by (simp only: f prod.case)
qed

section \<open>Loops as sums over the cyclic edges\<close>

lemma fold_add_sum_list:
  "fold (\<lambda>x a. a + h x) xs (a0::real) = a0 + sum_list (map h xs)"
  by (induction xs arbitrary: a0) (simp_all add: algebra_simps)

lemma edges_length: "length (edges ps) = length ps"
  by (simp add: edges_def)

lemma edges_nth:
  "i < length ps \<Longrightarrow> edges ps ! i = (ps ! i, ps ! (Suc i mod length ps))"
  by (simp add: edges_def nth_rotate1)

lemma edges_map_upt:
  "map (\<lambda>i. (ps ! i, ps ! (Suc i mod length ps))) [0..<length ps] = edges ps"
  by (rule nth_equalityI) (simp_all add: edges_length edges_nth)

lemma sum_list_upt_edges:
  "sum_list (map (\<lambda>i. h (ps ! i, ps ! (Suc i mod length ps))) [0..<length ps])
   = sum_list (map h (edges ps))"
proof -
  have "map (\<lambda>i. h (ps ! i, ps ! (Suc i mod length ps))) [0..<length ps]
        = map h (map (\<lambda>i. (ps ! i, ps ! (Suc i mod length ps))) [0..<length ps])"
    by simp
  then show ?thesis
    by (simp only: edges_map_upt)
qed

lemma shoelaceLoop_edges: "shoelaceLoop ps = sum_list (map cross (edges ps))"
proof -
  have "shoelaceStep ps = (\<lambda>i a. a + cross (ps ! i, ps ! (Suc i mod length ps)))"
    by (rule ext)+ (simp add: shoelaceStep_def cross_def Let_def)
  then have "shoelaceLoop ps
             = 0 + sum_list (map (\<lambda>i. cross (ps ! i, ps ! (Suc i mod length ps))) [0..<length ps])"
    unfolding shoelaceLoop_def by (simp only: fold_add_sum_list)
  then show ?thesis
    by (simp only: sum_list_upt_edges add_0)
qed

lemma shoelaceSum_edges: "shoelaceSum ps = sum_list (map cross (edges ps))"
proof -
  have "shoelaceSum ps = (\<Sum>i<length ps. cross (ps ! i, ps ! (Suc i mod length ps)))"
    by (simp add: shoelaceSum_def cross_def)
  also have "\<dots> = sum_list (map (\<lambda>i. cross (ps ! i, ps ! (Suc i mod length ps))) [0..<length ps])"
    by (simp add: interv_sum_list_conv_sum_set_nat atLeast0LessThan)
  finally show ?thesis
    by (simp only: sum_list_upt_edges)
qed

lemma latSum_sum_list: "latSum ps = sum_list (map fst ps)"
  by (simp add: latSum_def fold_add_sum_list)

lemma calculatePolygonArea_formula:
  "calculatePolygonArea ps = (if length ps < 3 then 0 else shoelaceAreaKm2 ps)"
  by (simp add: calculatePolygonArea_def shoelaceAreaKm2_def Let_def meanLat_def
      latSum_sum_list shoelaceLoop_edges shoelaceSum_edges)

lemma areaKm2_p0_formula: "areaKm2_p0 ps = shoelaceAreaKm2 ps"
  by (simp add: areaKm2_p0_def shoelaceAreaKm2_def Let_def meanLat_def
      latSum_sum_list shoelaceLoop_edges shoelaceSum_edges)

lemma zip_rotate1:
  "length xs = length ys \<Longrightarrow> zip (rotate1 xs) (rotate1 ys) = rotate1 (zip xs ys)"
  by (cases xs; cases ys) simp_all

lemma zip_rotate:
  "length xs = length ys \<Longrightarrow> zip (rotate k xs) (rotate k ys) = rotate k (zip xs ys)"
  by (induction k) (simp_all add: zip_rotate1)

lemma edges_rotate: "edges (rotate k ps) = rotate k (edges ps)"
  by (simp add: edges_def rotate1_rotate_swap zip_rotate)

lemma mset_rotate1: "mset (rotate1 xs) = mset xs"
  by (cases xs) simp_all

lemma mset_rotate: "mset (rotate k xs) = mset xs"
  by (induction k) (simp_all add: mset_rotate1)

lemma edges_rev:
  "mset (edges (rev ps)) = image_mset prod.swap (mset (edges ps))"
proof (cases "ps = []")
  case True
  then show ?thesis by (simp add: edges_def)
next
  case False
  define n where "n = length ps"
  have n: "0 < n" using False by (simp add: n_def)
  have r1: "rotate1 (rev ps) = rev (rotate (n - 1) ps)"
    using rotate_rev [of 1 ps] n by (cases "n = 1") (simp_all add: n_def)
  have "edges (rev ps) = rev (zip ps (rotate (n - 1) ps))"
    by (simp add: edges_def r1 zip_rev)
  moreover have "rotate1 (rotate (n - 1) ps) = ps"
    using n by (metis One_nat_def Suc_pred n_def rotate_Suc rotate_id mod_self rotate_conv_mod)
  then have "edges (rotate (n - 1) ps) = zip (rotate (n - 1) ps) ps"
    by (simp add: edges_def)
  then have "map prod.swap (edges (rotate (n - 1) ps)) = zip ps (rotate (n - 1) ps)"
    by (auto simp: zip_commute [of ps])
  ultimately have "mset (edges (rev ps)) = image_mset prod.swap (mset (edges (rotate (n - 1) ps)))"
    by (metis mset_map mset_rev)
  then show ?thesis
    by (simp add: edges_rotate mset_rotate)
qed

lemma sum_list_map_uminus:
  "sum_list (map (\<lambda>e. - f e) es) = - sum_list (map f es :: real list)"
  by (induction es) simp_all


lemma cross_swap: "cross (prod.swap e) = - cross e"
  by (simp add: cross_def)

lemma shoelaceSum_rev: "shoelaceSum (rev ps) = - shoelaceSum ps"
proof -
  have "sum_list (map cross (edges (rev ps))) = sum_mset (image_mset cross (mset (edges (rev ps))))"
    by (metis mset_map sum_mset_sum_list)
  also have "\<dots> = sum_mset (image_mset (\<lambda>e. - cross e) (mset (edges ps)))"
    by (simp add: edges_rev image_mset.compositionality comp_def cross_swap)
  also have "\<dots> = sum_list (map (\<lambda>e. - cross e) (edges ps))"
    by (metis mset_map sum_mset_sum_list)
  also have "\<dots> = - sum_list (map cross (edges ps))"
    by (rule sum_list_map_uminus)
  finally show ?thesis
    by (simp only: shoelaceSum_edges)
qed

lemma meanLat_rev: "meanLat (rev ps) = meanLat ps"
  by (simp add: meanLat_def rev_map [symmetric])

lemma shoelaceAreaKm2_rev: "shoelaceAreaKm2 (rev ps) = shoelaceAreaKm2 ps"
  by (simp add: shoelaceAreaKm2_def shoelaceSum_rev meanLat_rev)

lemma sum_list_bounds:
  assumes "\<forall>x\<in>set xs. \<bar>x\<bar> \<le> (b::real)"
  shows "\<bar>sum_list xs\<bar> \<le> real (length xs) * b"
  using assms by (induction xs) (auto simp: algebra_simps)

lemma meanLat_bound:
  assumes "\<forall>p\<in>set ps. \<bar>fst p\<bar> \<le> 90"
  shows "\<bar>meanLat ps\<bar> \<le> 90"
proof (cases "ps = []")
  case True
  then show ?thesis by (simp add: meanLat_def)
next
  case False
  have "\<bar>sum_list (map fst ps)\<bar> \<le> real (length (map fst ps)) * 90"
    by (rule sum_list_bounds) (use assms in auto)
  then show ?thesis
    using False by (simp add: meanLat_def field_simps)
qed

lemma shoelaceAreaKm2_nonneg:
  assumes "\<forall>p\<in>set ps. \<bar>fst p\<bar> \<le> 90"
  shows "0 \<le> shoelaceAreaKm2 ps"
proof -
  have "\<bar>meanLat ps\<bar> \<le> 90"
    by (rule meanLat_bound [OF assms])
  then have "- 90 \<le> meanLat ps" "meanLat ps \<le> 90"
    by (auto simp: abs_le_iff)
  then have "(- 90) * pi \<le> meanLat ps * pi" "meanLat ps * pi \<le> 90 * pi"
    using pi_ge_zero by (simp_all only: mult_right_mono)
  then have "- (pi / 2) \<le> meanLat ps * pi / 180" "meanLat ps * pi / 180 \<le> pi / 2"
    by simp_all
  then have "0 \<le> cos (meanLat ps * pi / 180)"
    by (rule cos_ge_zero)
  then show ?thesis
    by (simp add: shoelaceAreaKm2_def)
qed

section \<open>Aspect ratio\<close>

text \<open>
  Claim C7, as stated, asks for the value 0 whenever the bounding box has height 0. The
  two-point list \<open>[[0, 0], [0, 1]]\<close> has a box of height 0 and width 1; the quotient is
  \<open>111320 / 0\<close>, which is \<open>Infinity\<close>.
\<close>

theorem aspectRatio_zero_height_counterexample:
  "map_option height (calculateBoundingBox [(0, 0), (0, 1)]) = Some 0
   \<and> calculateAspectRatio [(0, 0), (0, 1)] = PosInf"
  by (simp add: calculateBoundingBox_def calculateAspectRatio_def bboxStep_def js_div_def)

text \<open>
  Claim C7, amended: \<open>calculateAspectRatio\<close> is 0 for the empty list. For any other list,
  with \<open>h\<close> the height and \<open>w\<close> the width of the bounding box and the width in metres
  scaled by the cosine of the mid-latitude \<open>(minLat + maxLat) / 2\<close> of the box, it is the
  quotient of width and height in metres when \<open>h\<close> is not 0, and it is not a finite
  number when \<open>h\<close> is 0: \<open>Infinity\<close>, \<open>-Infinity\<close> or \<open>NaN\<close> by the sign of the
  width in metres.
\<close>

theorem calculateAspectRatio_cases:
  "calculateAspectRatio points =
     (if points = [] then Fin 0
      else
        (let h = Max (fst ` set points) - Min (fst ` set points);
             w = Max (snd ` set points) - Min (snd ` set points);
             mid = (Min (fst ` set points) + Max (fst ` set points)) / 2;
             widthM = w * 111320 * cos (mid * pi / 180)
         in if h \<noteq> 0 then Fin (widthM / (h * 111320))
            else if 0 < widthM then PosInf
            else if widthM < 0 then NegInf
            else NaN))"
proof (cases "points = []")
  case True
  then show ?thesis
    by (simp add: calculateAspectRatio_def calculateBoundingBox_Nil)
next
  case False
  then show ?thesis
    by (simp add: calculateAspectRatio_def calculateBoundingBox_extremes js_div_def Let_def)
qed

theorem calculateAspectRatio_cases_witness:
  "calculateAspectRatio [(-1, 0), (1, 4)] = Fin 2"
  using calculateAspectRatio_cases [of "[(-1, 0), (1, 4)]"]
  by simp

section \<open>The checker on a missing or empty argument\<close>

text \<open>
  Claim C10: called with \<open>null\<close>, with \<open>undefined\<close> or with the empty array, the
  checker returns its argument and shows no notification; this is a normal return, the
  outcome of the first line of the function. It holds for the checker of \<open>part_000\<close>
  and for the one of \<open>part_001\<close>. (For \<open>null\<close> the returned argument is the value
  \<open>null\<close> itself.)
\<close>

theorem validateAndFixCoordinates_absent:
  "validateAndFixCoordinates mapCenter JNull = \<lparr>returned = JNull, shown = []\<rparr>
   \<and> validateAndFixCoordinates mapCenter JUndefined = \<lparr>returned = JUndefined, shown = []\<rparr>
   \<and> validateAndFixCoordinates mapCenter (JArray []) = \<lparr>returned = JArray [], shown = []\<rparr>
   \<and> validateAndFixCoordinates_p1 JNull = \<lparr>returned = JNull, shown = []\<rparr>
   \<and> validateAndFixCoordinates_p1 JUndefined = \<lparr>returned = JUndefined, shown = []\<rparr>
   \<and> validateAndFixCoordinates_p1 (JArray []) = \<lparr>returned = JArray [], shown = []\<rparr>"
  by (simp add: validateAndFixCoordinates_def validateAndFixCoordinates_p1_def)

section \<open>The measurement caches\<close>

text \<open>What a store into a cache can contain.\<close>

lemma cache_set_subset: "set (cache_set c k v) \<subseteq> insert (k, v) (set c)"
  by (auto simp: cache_set_def split: if_splits)

lemma cache_delete_subset: "set (cache_delete k c) \<subseteq> set c"
  by (auto simp: cache_delete_def)

lemma fold_cache_delete_subset: "set (fold cache_delete ks c) \<subseteq> set c"
proof (induction ks arbitrary: c)
  case Nil
  show ?case by simp
next
  case (Cons k ks)
  have "set (fold cache_delete ks (cache_delete k c)) \<subseteq> set (cache_delete k c)"
    by (rule Cons.IH)
  with cache_delete_subset [of k c] show ?case by auto
qed

lemma store50_subset: "set (store50 c k v) \<subseteq> insert (k, v) (set c)"
  using cache_set_subset [of "fold cache_delete (take 25 (map fst c)) c" k v]
    cache_set_subset [of c k v] fold_cache_delete_subset [of "take 25 (map fst c)" c]
  by (auto simp: store50_def Let_def)

lemma store100_subset: "set (store100 c k v) \<subseteq> insert (k, v) (set c)"
  using cache_set_subset [of c k v] by (auto simp: store100_def)

lemma cache_get_None: "cache_get c k = None \<longleftrightarrow> k \<notin> fst ` set c"
  by (simp add: cache_get_def map_of_eq_None_iff)

lemma cache_set_new: "k \<notin> fst ` set c \<Longrightarrow> cache_set c k v = c @ [(k, v)]"
  by (simp add: cache_set_def)

lemma cache_delete_head:
  "k \<notin> fst ` set c \<Longrightarrow> cache_delete k ((k, v) # c) = c"
  by (induction c) (auto simp: cache_delete_def)

lemma fold_cache_delete_take:
  "distinct (map fst c) \<Longrightarrow> fold cache_delete (take n (map fst c)) c = drop n c"
proof (induction c arbitrary: n)
  case Nil
  then show ?case by simp
next
  case (Cons e c)
  show ?case
  proof (cases n)
    case 0
    then show ?thesis by simp
  next
    case (Suc m)
    obtain k v where e: "e = (k, v)" by (cases e)
    from Cons.prems have "k \<notin> fst ` set c" "distinct (map fst c)"
      by (auto simp: e)
    then show ?thesis
      using Cons.IH [of m] by (simp add: Suc e cache_delete_head)
  qed
qed

lemma store50_new:
  assumes "distinct (map fst c)" and "k \<notin> fst ` set c"
  shows "store50 c k v = (if length c < 50 then c else drop 25 c) @ [(k, v)]"
proof -
  have "k \<notin> fst ` set (drop 25 c)"
    using assms(2) by (auto dest: in_set_dropD)
  then show ?thesis
    using assms by (simp add: store50_def Let_def cache_set_new fold_cache_delete_take)
qed

lemma store50_inv:
  assumes "cacheInv 50 c" and "k \<notin> fst ` set c"
  shows "cacheInv 50 (store50 c k v)"
proof -
  from assms have d: "distinct (map fst c)" and l: "length c \<le> 50"
    by (simp_all add: cacheInv_def)
  have "k \<notin> fst ` set (drop 25 c)"
    using assms(2) by (auto dest: in_set_dropD)
  moreover have "distinct (map fst (drop 25 c))"
    using d by (simp add: drop_map [symmetric])
  ultimately show ?thesis
    using d l assms(2) by (auto simp: store50_new [OF d assms(2)] cacheInv_def)
qed

lemma store100_new:
  assumes "k \<notin> fst ` set c"
  shows "store100 c k v = (if length c < 100 then c @ [(k, v)] else c)"
  using assms by (simp add: store100_def cache_set_new)

lemma store100_inv:
  assumes "cacheInv 100 c" and "k \<notin> fst ` set c"
  shows "cacheInv 100 (store100 c k v)"
  using assms by (auto simp: store100_new cacheInv_def)

lemma digitChar_not_minus: "d < 10 \<Longrightarrow> digitChar d \<noteq> CHR ''-''"
proof -
  assume "d < 10"
  then have "d \<in> {0, 1, 2, 3, 4, 5, 6, 7, 8, 9}" by auto
  then show ?thesis
    by (auto simp: digitChar_def)
qed

lemma decimal_hd: "decimal n \<noteq> [] \<and> hd (decimal n) \<noteq> CHR ''-''"
proof (induction n rule: decimal.induct)
  case (1 n)
  show ?case
  proof (cases "n < 10")
    case True
    then show ?thesis
      using digitChar_not_minus [of n] by (subst decimal.simps, subst decimal.simps) simp
  next
    case False
    with 1 show ?thesis
      by (subst decimal.simps, subst decimal.simps) simp
  qed
qed

lemma toFixed6_hd: "hd (toFixed6 x) = CHR ''-'' \<longleftrightarrow> x < 0"
  using decimal_hd by (simp add: toFixed6_def Let_def hd_append)

lemma toFixed6_nonempty: "toFixed6 x \<noteq> []"
  by (simp add: toFixed6_def Let_def)

lemma joinWith_hd: "x \<noteq> [] \<Longrightarrow> hd (joinWith sep (x # xs)) = hd x"
  by (cases xs) simp_all

lemma cacheKey_hd: "ps \<noteq> [] \<Longrightarrow> hd (cacheKey ps) = CHR ''-'' \<longleftrightarrow> fst (hd ps) < 0"
  by (cases ps) (simp_all add: cacheKey_def joinWith_hd toFixed6_nonempty hd_append toFixed6_hd)

lemma sampleAreaCache_keys:
  "k \<in> fst ` set (sampleAreaCache n) \<Longrightarrow> hd k = CHR ''-''"
  by (auto simp: sampleAreaCache_def cacheKey_hd sampleRing_def)

lemma sampleAreaCache_fresh:
  "ps \<noteq> [] \<Longrightarrow> 0 \<le> fst (hd ps) \<Longrightarrow> cacheKey ps \<notin> fst ` set (sampleAreaCache n)"
  using sampleAreaCache_keys [of "cacheKey ps" n] by (auto simp: cacheKey_hd)

lemma digitChar_inj: "d < 10 \<Longrightarrow> e < 10 \<Longrightarrow> digitChar d = digitChar e \<Longrightarrow> d = e"
proof -
  assume "d < 10" "e < 10" and eq: "digitChar d = digitChar e"
  then have "d \<in> {0, 1, 2, 3, 4, 5, 6, 7, 8, 9}" "e \<in> {0, 1, 2, 3, 4, 5, 6, 7, 8, 9}"
    by auto
  with eq show ?thesis
    by (auto simp: digitChar_def)
qed

lemma decimal_rec: "\<not> n < 10 \<Longrightarrow> decimal n = decimal (n div 10) @ [digitChar (n mod 10)]"
  by (subst decimal.simps) simp

lemma decimal_small: "n < 10 \<Longrightarrow> decimal n = [digitChar n]"
  by (subst decimal.simps) simp

lemma decimal_inj: "decimal m = decimal n \<Longrightarrow> m = n"
proof (induction m arbitrary: n rule: decimal.induct)
  case (1 m)
  show ?case
  proof (cases "m < 10")
    case True
    note m = this
    show ?thesis
    proof (cases "n < 10")
      case True
      with m "1.prems" show ?thesis
        by (simp add: decimal_small digitChar_inj)
    next
      case False
      with m "1.prems" decimal_hd [of "n div 10"] show ?thesis
        by (simp add: decimal_small decimal_rec)
    qed
  next
    case False
    note m = this
    show ?thesis
    proof (cases "n < 10")
      case True
      with m "1.prems" decimal_hd [of "m div 10"] show ?thesis
        by (simp add: decimal_small decimal_rec)
    next
      case False
      with m "1.prems" have "decimal (m div 10) = decimal (n div 10)"
        and "digitChar (m mod 10) = digitChar (n mod 10)"
        by (simp_all add: decimal_rec)
      then have "m div 10 = n div 10" "m mod 10 = n mod 10"
        using "1.IH" [OF m] by (auto intro: digitChar_inj)
      then show ?thesis
        by (metis div_mult_mod_eq)
    qed
  qed
qed

lemma toFixed6_neg_int:
  "toFixed6 (- 1 - real i) = ''-'' @ decimal (Suc i) @ ''.000000''"
proof -
  have "\<bar>- 1 - real i\<bar> * 1000000 + 1 / 2 = real (Suc i * 1000000) + 1 / 2"
    by simp
  moreover have "\<lfloor>real (Suc i * 1000000) + 1 / 2\<rfloor> = int (Suc i * 1000000)"
    by (rule floor_unique) simp_all
  ultimately have n: "nat \<lfloor>\<bar>- 1 - real i\<bar> * 1000000 + 1 / 2\<rfloor> = Suc i * 1000000"
    by (simp only: nat_int)
  have neg: "- 1 - real i < 0" by simp
  show ?thesis
    unfolding toFixed6_def Let_def n
    by (simp only: neg if_True) (simp add: digitChar_def)
qed

lemma cacheKey_sampleRing:
  "cacheKey (sampleRing i)
   = ''-'' @ decimal (Suc i) @ ''.000000,0.000000|0.000000,1.000000|1.000000,1.000000''"
proof -
  have "toFixed6 0 = ''0.000000''" "toFixed6 1 = ''1.000000''"
    by (simp_all add: toFixed6_def Let_def digitChar_def)
  then show ?thesis
    by (simp add: cacheKey_def sampleRing_def toFixed6_neg_int)
qed

lemma cacheKey_sampleRing_inj: "cacheKey (sampleRing i) = cacheKey (sampleRing j) \<Longrightarrow> i = j"
  using decimal_inj [of "Suc i" "Suc j"] by (simp add: cacheKey_sampleRing)

lemma sampleAreaCache_keys_distinct: "distinct (map fst (sampleAreaCache n))"
proof -
  have "map fst (sampleAreaCache n) = map (\<lambda>i. cacheKey (sampleRing i)) [0..<n]"
    by (simp add: sampleAreaCache_def comp_def)
  moreover have "inj_on (\<lambda>i. cacheKey (sampleRing i)) (set [0..<n])"
    by (rule inj_onI) (rule cacheKey_sampleRing_inj)
  ultimately show ?thesis
    by (simp add: distinct_map)
qed

lemma sampleAreaCache_Suc:
  "sampleAreaCache (Suc n)
   = sampleAreaCache n @ [(cacheKey (sampleRing n), areaKm2_p0 (sampleRing n))]"
  by (simp add: sampleAreaCache_def)

lemma sampleAreaCache_length: "length (sampleAreaCache n) = n"
  by (simp add: sampleAreaCache_def)

lemma sampleRing_fresh: "cacheKey (sampleRing n) \<notin> fst ` set (sampleAreaCache n)"
proof
  assume "cacheKey (sampleRing n) \<in> fst ` set (sampleAreaCache n)"
  then obtain i where "i < n" "cacheKey (sampleRing n) = cacheKey (sampleRing i)"
    by (auto simp: sampleAreaCache_def)
  then show False
    by (auto dest: cacheKey_sampleRing_inj)
qed

text \<open>The sample caches are the states reached from the empty cache by measuring the sample triangles in order.\<close>

lemma sampleAreaCache_reached_p0:
  "n \<le> 50 \<Longrightarrow>
   fold (\<lambda>i c. snd (calculatePolygonArea_p0 c (sampleRing i))) [0..<n] [] = sampleAreaCache n"
proof (induction n)
  case 0
  show ?case by (simp add: sampleAreaCache_def)
next
  case (Suc n)
  have "cache_get (sampleAreaCache n) (cacheKey (sampleRing n)) = None"
    by (simp add: cache_get_None sampleRing_fresh)
  moreover have "length (sampleRing n) = 3"
    by (simp add: sampleRing_def)
  ultimately have "snd (calculatePolygonArea_p0 (sampleAreaCache n) (sampleRing n))
                   = sampleAreaCache (Suc n)"
    using Suc.prems sampleRing_fresh [of n]
    by (simp add: calculatePolygonArea_p0_def store50_def cache_set_new sampleAreaCache_length
        sampleAreaCache_Suc)
  with Suc show ?case by simp
qed

lemma sampleAreaCache_reached_p1:
  "n \<le> 100 \<Longrightarrow>
   fold (\<lambda>i c. snd (calculatePolygonArea_p1 c (sampleRing i))) [0..<n] [] = sampleAreaCache n"
proof (induction n)
  case 0
  show ?case by (simp add: sampleAreaCache_def)
next
  case (Suc n)
  have "cache_get (sampleAreaCache n) (cacheKey (sampleRing n)) = None"
    by (simp add: cache_get_None sampleRing_fresh)
  moreover have "length (sampleRing n) = 3"
    by (simp add: sampleRing_def)
  ultimately have "snd (calculatePolygonArea_p1 (sampleAreaCache n) (sampleRing n))
                   = sampleAreaCache (Suc n)"
    using Suc.prems sampleRing_fresh [of n]
    by (simp add: calculatePolygonArea_p1_def store100_def cache_set_new sampleAreaCache_length
        sampleAreaCache_Suc)
  with Suc show ?case by simp
qed

text \<open>
  Claim C6, as stated, has every cache evict its oldest half and then insert when it is
  full. The area cache of \<open>part_001\<close> does neither: with the 100 entries of the first
  100 sample triangles, a call for a triangle whose key is not in the cache leaves the
  cache as it was.
\<close>

theorem cache_p1_full_counterexample:
  "length (sampleAreaCache 100) = 100
   \<and> cache_get (sampleAreaCache 100) (cacheKey [(0, 0), (0, 1), (1, 1)]) = None
   \<and> snd (calculatePolygonArea_p1 (sampleAreaCache 100) [(0, 0), (0, 1), (1, 1)])
       = sampleAreaCache 100"
proof -
  have l: "length (sampleAreaCache 100) = 100"
    by (simp add: sampleAreaCache_def)
  have f: "cache_get (sampleAreaCache 100) (cacheKey [(0, 0), (0, 1), (1, 1)]) = None"
    by (simp add: cache_get_None sampleAreaCache_fresh)
  show ?thesis
    by (simp add: l f calculatePolygonArea_p1_def store100_def)
qed

text \<open>
  Claim C6, amended. In \<open>part_000\<close> (capacity 50) a call that misses the cache stores
  its result: when the cache holds 50 entries the 25 oldest are dropped first, and the
  new entry goes to the end. In \<open>part_001\<close> (capacity 100) a call that misses a cache
  of 100 entries stores nothing and evicts nothing; below 100 the entry goes to the end.
  In both files, for the area cache and for the perimeter cache, a cache within its
  capacity stays within its capacity.
\<close>

theorem measurement_cache_insertion:
  assumes "cacheInv 50 ac" and "cacheInv 50 pc" and "cacheInv 100 ac1" and "cacheInv 100 pc1"
  shows "cacheInv 50 (snd (calculatePolygonArea_p0 ac points))
     \<and> cacheInv 50 (snd (calculatePolygonPerimeter_p0 pc points))
     \<and> (3 \<le> length points \<and> cache_get ac (cacheKey points) = None \<longrightarrow>
          snd (calculatePolygonArea_p0 ac points)
          = (if length ac = 50 then drop 25 ac else ac) @ [(cacheKey points, areaKm2_p0 points)])
     \<and> (2 \<le> length points \<and> cache_get pc (cacheKey points) = None \<longrightarrow>
          snd (calculatePolygonPerimeter_p0 pc points)
          = (if length pc = 50 then drop 25 pc else pc) @ [(cacheKey points, perimeterKm_p0 points)])
     \<and> cacheInv 100 (snd (calculatePolygonArea_p1 ac1 points))
     \<and> cacheInv 100 (snd (calculatePolygonPerimeter_p1 pc1 points))
     \<and> (3 \<le> length points \<and> cache_get ac1 (cacheKey points) = None \<longrightarrow>
          snd (calculatePolygonArea_p1 ac1 points)
          = (if length ac1 = 100 then ac1 else ac1 @ [(cacheKey points, areaKm2_p0 points)]))
     \<and> (2 \<le> length points \<and> cache_get pc1 (cacheKey points) = None \<longrightarrow>
          snd (calculatePolygonPerimeter_p1 pc1 points)
          = (if length pc1 = 100 then pc1 else pc1 @ [(cacheKey points, perimeterKm_p0 points)]))"
proof -
  have a0: "cacheInv 50 (snd (calculatePolygonArea_p0 ac points))"
    using assms(1) by (auto simp: calculatePolygonArea_p0_def cache_get_None store50_inv
        split: option.split)
  have p0: "cacheInv 50 (snd (calculatePolygonPerimeter_p0 pc points))"
    using assms(2) by (auto simp: calculatePolygonPerimeter_p0_def cache_get_None store50_inv
        split: option.split)
  have a1: "cacheInv 100 (snd (calculatePolygonArea_p1 ac1 points))"
    using assms(3) by (auto simp: calculatePolygonArea_p1_def cache_get_None store100_inv
        split: option.split)
  have p1: "cacheInv 100 (snd (calculatePolygonPerimeter_p1 pc1 points))"
    using assms(4) by (auto simp: calculatePolygonPerimeter_p1_def cache_get_None store100_inv
        split: option.split)
  have sa0: "snd (calculatePolygonArea_p0 ac points)
          = (if length ac = 50 then drop 25 ac else ac) @ [(cacheKey points, areaKm2_p0 points)]"
    if "3 \<le> length points" "cache_get ac (cacheKey points) = None"
    using that assms(1) cache_get_None [of ac "cacheKey points"]
    by (auto simp: calculatePolygonArea_p0_def store50_new cacheInv_def)
  have sp0: "snd (calculatePolygonPerimeter_p0 pc points)
          = (if length pc = 50 then drop 25 pc else pc) @ [(cacheKey points, perimeterKm_p0 points)]"
    if "2 \<le> length points" "cache_get pc (cacheKey points) = None"
    using that assms(2) cache_get_None [of pc "cacheKey points"]
    by (auto simp: calculatePolygonPerimeter_p0_def store50_new cacheInv_def)
  have sa1: "snd (calculatePolygonArea_p1 ac1 points)
          = (if length ac1 = 100 then ac1 else ac1 @ [(cacheKey points, areaKm2_p0 points)])"
    if "3 \<le> length points" "cache_get ac1 (cacheKey points) = None"
    using that assms(3) cache_get_None [of ac1 "cacheKey points"]
    by (auto simp: calculatePolygonArea_p1_def store100_new cacheInv_def)
  have sp1: "snd (calculatePolygonPerimeter_p1 pc1 points)
          = (if length pc1 = 100 then pc1 else pc1 @ [(cacheKey points, perimeterKm_p0 points)])"
    if "2 \<le> length points" "cache_get pc1 (cacheKey points) = None"
    using that assms(4) cache_get_None [of pc1 "cacheKey points"]
    by (auto simp: calculatePolygonPerimeter_p1_def store100_new cacheInv_def)
  from a0 p0 a1 p1 sa0 sp0 sa1 sp1 show ?thesis
    by blast
qed

text \<open>
  The area cache of \<open>part_000\<close> after the first 50 sample triangles is full; the next
  miss leaves the last 25 of them and the new entry.
\<close>

theorem measurement_cache_insertion_witness:
  "cacheInv 50 (sampleAreaCache 50)
   \<and> snd (calculatePolygonArea_p0 (sampleAreaCache 50) [(0, 0), (0, 1), (1, 1)])
       = drop 25 (sampleAreaCache 50)
         @ [(cacheKey [(0, 0), (0, 1), (1, 1)], areaKm2_p0 [(0, 0), (0, 1), (1, 1)])]
   \<and> length (snd (calculatePolygonArea_p0 (sampleAreaCache 50) [(0, 0), (0, 1), (1, 1)])) = 26"
proof -
  have i: "cacheInv 50 (sampleAreaCache 50)"
    by (simp add: cacheInv_def sampleAreaCache_keys_distinct sampleAreaCache_length)
  have e: "cacheInv 50 ([] :: jsnum cache)" "cacheInv 100 ([] :: real cache)"
    "cacheInv 100 ([] :: jsnum cache)"
    by (simp_all add: cacheInv_def)
  have f: "cache_get (sampleAreaCache 50) (cacheKey [(0, 0), (0, 1), (1, 1)]) = None"
    by (simp add: cache_get_None sampleAreaCache_fresh)
  show ?thesis
    using measurement_cache_insertion [OF i e, of "[(0, 0), (0, 1), (1, 1)]"] f i
    by (simp add: sampleAreaCache_length)
qed

section \<open>Area\<close>

text \<open>
  The cached variants return what the cache holds under the key of the list, and compute
  the formula only when the key is not there. A cache reached from the empty one holds
  under every key the formula of a list that was measured before and has that key.
\<close>

lemma areaCacheFrom_hit:
  assumes "areaCacheFrom S c" and "cache_get c k = Some v"
  shows "\<exists>R\<in>S. 3 \<le> length R \<and> cacheKey R = k \<and> v = shoelaceAreaKm2 R"
  using assms by (auto simp: areaCacheFrom_def cache_get_def dest: map_of_SomeD)

lemma areaCacheFrom_insert:
  assumes "areaCacheFrom S c" and "points \<in> S" and "3 \<le> length points"
    and "set c' \<subseteq> insert (cacheKey points, shoelaceAreaKm2 points) (set c)"
  shows "areaCacheFrom S c'"
  unfolding areaCacheFrom_def
proof (intro allI impI)
  fix k v
  assume "(k, v) \<in> set c'"
  with assms(4) have "(k, v) = (cacheKey points, shoelaceAreaKm2 points) \<or> (k, v) \<in> set c"
    by auto
  then show "\<exists>R\<in>S. 3 \<le> length R \<and> cacheKey R = k \<and> v = shoelaceAreaKm2 R"
  proof
    assume "(k, v) = (cacheKey points, shoelaceAreaKm2 points)"
    with assms(2,3) show ?thesis by auto
  next
    assume "(k, v) \<in> set c"
    with assms(1) show ?thesis by (simp add: areaCacheFrom_def)
  qed
qed

lemma areaCacheFrom_step_p0:
  assumes "areaCacheFrom S c" and "points \<in> S"
  shows "areaCacheFrom S (snd (calculatePolygonArea_p0 c points))"
proof (cases "length points < 3 \<or> cache_get c (cacheKey points) \<noteq> None")
  case True
  with assms(1) show ?thesis
    by (auto simp: calculatePolygonArea_p0_def)
next
  case False
  then have s: "snd (calculatePolygonArea_p0 c points)
             = store50 c (cacheKey points) (shoelaceAreaKm2 points)"
    by (auto simp: calculatePolygonArea_p0_def areaKm2_p0_formula)
  from False have "3 \<le> length points" by simp
  with assms show ?thesis
    unfolding s by (rule areaCacheFrom_insert) (rule store50_subset)
qed

lemma areaCacheFrom_step_p1:
  assumes "areaCacheFrom S c" and "points \<in> S"
  shows "areaCacheFrom S (snd (calculatePolygonArea_p1 c points))"
proof (cases "length points < 3 \<or> cache_get c (cacheKey points) \<noteq> None")
  case True
  with assms(1) show ?thesis
    by (auto simp: calculatePolygonArea_p1_def)
next
  case False
  then have s: "snd (calculatePolygonArea_p1 c points)
             = store100 c (cacheKey points) (shoelaceAreaKm2 points)"
    by (auto simp: calculatePolygonArea_p1_def areaKm2_p0_formula)
  from False have "3 \<le> length points" by simp
  with assms show ?thesis
    unfolding s by (rule areaCacheFrom_insert) (rule store100_subset)
qed

lemma areaCacheFrom_fold_p0:
  "areaCacheFrom S c \<Longrightarrow> set calls \<subseteq> S \<Longrightarrow>
   areaCacheFrom S (fold (\<lambda>points c. snd (calculatePolygonArea_p0 c points)) calls c)"
  by (induction calls arbitrary: c) (simp_all add: areaCacheFrom_step_p0)

lemma areaCacheFrom_fold_p1:
  "areaCacheFrom S c \<Longrightarrow> set calls \<subseteq> S \<Longrightarrow>
   areaCacheFrom S (fold (\<lambda>points c. snd (calculatePolygonArea_p1 c points)) calls c)"
  by (induction calls arbitrary: c) (simp_all add: areaCacheFrom_step_p1)

lemma areaCacheFrom_empty: "areaCacheFrom S []"
  by (simp add: areaCacheFrom_def)

lemma areaCacheAfter_p0_from: "areaCacheFrom (set calls) (areaCacheAfter_p0 calls)"
  unfolding areaCacheAfter_p0_def
  by (rule areaCacheFrom_fold_p0) (simp_all add: areaCacheFrom_empty)

lemma areaCacheAfter_p1_from: "areaCacheFrom (set calls) (areaCacheAfter_p1 calls)"
  unfolding areaCacheAfter_p1_def
  by (rule areaCacheFrom_fold_p1) (simp_all add: areaCacheFrom_empty)

lemma cached_area_value:
  "fst (calculatePolygonArea_p0 c points) =
     (if length points < 3 then 0
      else case cache_get c (cacheKey points) of
             None \<Rightarrow> shoelaceAreaKm2 points
           | Some cached \<Rightarrow> cached)"
  "fst (calculatePolygonArea_p1 c points) =
     (if length points < 3 then 0
      else case cache_get c (cacheKey points) of
             None \<Rightarrow> shoelaceAreaKm2 points
           | Some cached \<Rightarrow> cached)"
  by (simp_all add: calculatePolygonArea_p0_def calculatePolygonArea_p1_def areaKm2_p0_formula
      split: option.split)

text \<open>
  Two triangles that agree to six decimals: \<open>[[0, 0], [0, 1], [1, 1]]\<close> and
  \<open>[[0, 0], [0, 1.0000004], [1, 1]]\<close> have the same key and different areas.
\<close>

lemma toFixed6_nonneg:
  assumes "0 \<le> x" and "\<lfloor>x * 1000000 + 1 / 2\<rfloor> = int n"
  shows "toFixed6 x =
           decimal (n div 1000000) @ ''.''
           @ [digitChar (n mod 1000000 div 100000 mod 10), digitChar (n mod 1000000 div 10000 mod 10),
              digitChar (n mod 1000000 div 1000 mod 10), digitChar (n mod 1000000 div 100 mod 10),
              digitChar (n mod 1000000 div 10 mod 10), digitChar (n mod 1000000 mod 10)]"
proof -
  from assms have "nat \<lfloor>\<bar>x\<bar> * 1000000 + 1 / 2\<rfloor> = n" "\<not> x < 0"
    by simp_all
  then show ?thesis
    by (simp only: toFixed6_def Let_def if_False append_Nil)
qed

lemma floor_near_one: "\<lfloor>(1.0000004 :: real) * 1000000 + 1 / 2\<rfloor> = int 1000000"
  by (rule floor_unique) simp_all

lemma toFixed6_near_one: "toFixed6 1.0000004 = toFixed6 1"
proof -
  have "toFixed6 1.0000004 = ''1.000000''"
    by (subst toFixed6_nonneg [OF _ floor_near_one]) (simp_all add: digitChar_def)
  moreover have "toFixed6 1 = ''1.000000''"
    by (simp add: toFixed6_def Let_def digitChar_def)
  ultimately show ?thesis by simp
qed

lemma cacheKey_near:
  "cacheKey [(0, 0), (0, 1.0000004), (1, 1)] = cacheKey [(0, 0), (0, 1), (1, 1)]"
  by (simp only: cacheKey_def list.map fst_conv snd_conv toFixed6_near_one)

lemma cacheKey_triangle_values:
  "cacheKey [(0, 0), (0, 1), (1, 1)] = ''0.000000,0.000000|0.000000,1.000000|1.000000,1.000000''"
  "cacheKey (rev [(0, 0), (0, 1), (1, 1)]) = ''1.000000,1.000000|0.000000,1.000000|0.000000,0.000000''"
  by (simp_all add: cacheKey_def toFixed6_def Let_def digitChar_def)

lemma cacheKey_near_rev:
  "cacheKey (rev [(0, 0), (0, 1.0000004), (1, 1)]) = cacheKey (rev [(0, 0), (0, 1), (1, 1)])"
  by (simp only: cacheKey_def list.map fst_conv snd_conv toFixed6_near_one rev.simps append.simps)

lemma cos_third_degree: "0 < cos (1 / 3 * pi / 180)"
proof -
  have "1 / 3 * pi / 180 < pi / 2" "- (pi / 2) < 1 / 3 * pi / 180"
    using pi_gt_zero by simp_all
  then show ?thesis by (simp add: cos_gt_zero_pi)
qed

lemma shoelaceAreaKm2_wedge:
  "shoelaceAreaKm2 [(0, 0), (0, x), (1, 1)]
   = \<bar>x\<bar> / 2 * (111320 * 111320 * cos (1 / 3 * pi / 180) / 1000000)"
  by (simp add: shoelaceAreaKm2_def shoelaceSum_edges edges_def cross_def meanLat_def)

lemma shoelaceAreaKm2_near_differ:
  "shoelaceAreaKm2 [(0, 0), (0, 1), (1, 1)] \<noteq> shoelaceAreaKm2 [(0, 0), (0, 1.0000004), (1, 1)]"
  using cos_third_degree by (simp add: shoelaceAreaKm2_wedge)

lemma areaCacheAfter_single:
  assumes "3 \<le> length points"
  shows "areaCacheAfter_p0 [points] = [(cacheKey points, shoelaceAreaKm2 points)]"
    and "areaCacheAfter_p1 [points] = [(cacheKey points, shoelaceAreaKm2 points)]"
  using assms
  by (simp_all add: areaCacheAfter_p0_def areaCacheAfter_p1_def calculatePolygonArea_p0_def
      calculatePolygonArea_p1_def cache_get_def store50_def store100_def cache_set_def
      areaKm2_p0_formula)

lemma cached_area_single_hit:
  assumes "cacheKey points = k" and "3 \<le> length points"
  shows "calculatePolygonArea_p0 [(k, v)] points = (v, [(k, v)])"
    and "calculatePolygonArea_p1 [(k, v)] points = (v, [(k, v)])"
  using assms
  by (simp_all add: calculatePolygonArea_p0_def calculatePolygonArea_p1_def cache_get_def)

text \<open>
  Claim C1, as stated, gives the area of every list of 3 or more vertices as the Shoelace
  formula of that list. The cached variants of \<open>part_000\<close> and \<open>part_001\<close> look the
  list up under its coordinates rounded to six decimals. After one call on
  \<open>[[0, 0], [0, 1], [1, 1]]\<close>, the call on \<open>[[0, 0], [0, 1.0000004], [1, 1]]\<close> finds
  the key of the first list and returns the area of the first list, which is not the
  formula of the second.
\<close>

theorem area_cache_hit_counterexample:
  "cacheKey [(0, 0), (0, 1.0000004), (1, 1)] = cacheKey [(0, 0), (0, 1), (1, 1)]
   \<and> fst (calculatePolygonArea_p0 (areaCacheAfter_p0 [[(0, 0), (0, 1), (1, 1)]])
            [(0, 0), (0, 1.0000004), (1, 1)])
       = shoelaceAreaKm2 [(0, 0), (0, 1), (1, 1)]
   \<and> fst (calculatePolygonArea_p1 (areaCacheAfter_p1 [[(0, 0), (0, 1), (1, 1)]])
            [(0, 0), (0, 1.0000004), (1, 1)])
       = shoelaceAreaKm2 [(0, 0), (0, 1), (1, 1)]
   \<and> shoelaceAreaKm2 [(0, 0), (0, 1), (1, 1)]
       \<noteq> shoelaceAreaKm2 [(0, 0), (0, 1.0000004), (1, 1)]"
proof -
  let ?T1 = "[(0, 0), (0, 1), (1, 1)] :: ring"
  let ?T2 = "[(0, 0), (0, 1.0000004), (1, 1)] :: ring"
  have l: "3 \<le> length ?T1" "3 \<le> length ?T2" by simp_all
  have a0: "fst (calculatePolygonArea_p0 (areaCacheAfter_p0 [?T1]) ?T2) = shoelaceAreaKm2 ?T1"
    by (simp only: areaCacheAfter_single [OF l(1)] cached_area_single_hit [OF cacheKey_near l(2)]
        fst_conv)
  have a1: "fst (calculatePolygonArea_p1 (areaCacheAfter_p1 [?T1]) ?T2) = shoelaceAreaKm2 ?T1"
    by (simp only: areaCacheAfter_single [OF l(1)] cached_area_single_hit [OF cacheKey_near l(2)]
        fst_conv)
  from cacheKey_near a0 a1 shoelaceAreaKm2_near_differ show ?thesis
    by (intro conjI)
qed


text \<open>
  Claim C1, amended. With fewer than 3 vertices the area is 0. With 3 or more vertices
  \<open>map-script.js\<close> returns the absolute value of the Shoelace sum over \<open>(lng, lat)\<close>,
  halved, times \<open>(111320 * 111320 * cos(avgLatRadians)) / 1e6\<close>, where \<open>avgLat\<close> is
  the mean of all vertex latitudes. The cached variants of \<open>part_000\<close> and
  \<open>part_001\<close> return that value when the key of the list is not in the cache, and the
  value stored under the key when it is. After any sequence of earlier calls from the
  empty cache, what they return for a list of 3 or more vertices is the formula of that
  list or of an earlier list with the same key, that is, with the same coordinates to six
  decimals. (Numbers are reals: the rounding of doubles is not part of the model.)
\<close>

theorem area_formula_through_cache:
  "calculatePolygonArea points = (if length points < 3 then 0 else shoelaceAreaKm2 points)
   \<and> fst (calculatePolygonArea_p0 cache0 points) =
       (if length points < 3 then 0
        else case cache_get cache0 (cacheKey points) of
               None \<Rightarrow> shoelaceAreaKm2 points
             | Some cached \<Rightarrow> cached)
   \<and> fst (calculatePolygonArea_p1 cache1 points) =
       (if length points < 3 then 0
        else case cache_get cache1 (cacheKey points) of
               None \<Rightarrow> shoelaceAreaKm2 points
             | Some cached \<Rightarrow> cached)
   \<and> (3 \<le> length points \<longrightarrow>
        (\<exists>R\<in>set (points # calls). 3 \<le> length R \<and> cacheKey R = cacheKey points
           \<and> fst (calculatePolygonArea_p0 (areaCacheAfter_p0 calls) points) = shoelaceAreaKm2 R))
   \<and> (3 \<le> length points \<longrightarrow>
        (\<exists>R\<in>set (points # calls). 3 \<le> length R \<and> cacheKey R = cacheKey points
           \<and> fst (calculatePolygonArea_p1 (areaCacheAfter_p1 calls) points) = shoelaceAreaKm2 R))"
proof -
  have h0: "\<exists>R\<in>set (points # calls). 3 \<le> length R \<and> cacheKey R = cacheKey points
              \<and> fst (calculatePolygonArea_p0 (areaCacheAfter_p0 calls) points) = shoelaceAreaKm2 R"
    if l: "3 \<le> length points"
  proof (cases "cache_get (areaCacheAfter_p0 calls) (cacheKey points)")
    case None
    with l show ?thesis by (simp add: cached_area_value)
  next
    case (Some v)
    from areaCacheFrom_hit [OF areaCacheAfter_p0_from Some] obtain R
      where "R \<in> set calls" "3 \<le> length R" "cacheKey R = cacheKey points" "v = shoelaceAreaKm2 R"
      by blast
    with l Some show ?thesis by (auto simp: cached_area_value)
  qed
  have h1: "\<exists>R\<in>set (points # calls). 3 \<le> length R \<and> cacheKey R = cacheKey points
              \<and> fst (calculatePolygonArea_p1 (areaCacheAfter_p1 calls) points) = shoelaceAreaKm2 R"
    if l: "3 \<le> length points"
  proof (cases "cache_get (areaCacheAfter_p1 calls) (cacheKey points)")
    case None
    with l show ?thesis by (simp add: cached_area_value)
  next
    case (Some v)
    from areaCacheFrom_hit [OF areaCacheAfter_p1_from Some] obtain R
      where "R \<in> set calls" "3 \<le> length R" "cacheKey R = cacheKey points" "v = shoelaceAreaKm2 R"
      by blast
    with l Some show ?thesis by (auto simp: cached_area_value)
  qed
  from h0 h1 show ?thesis
    by (simp only: calculatePolygonArea_formula cached_area_value) blast
qed

theorem area_formula_through_cache_witness:
  "calculatePolygonArea [(0, 0), (0, 1.0000004), (1, 1)]
     = shoelaceAreaKm2 [(0, 0), (0, 1.0000004), (1, 1)]
   \<and> (\<exists>R\<in>set [[(0, 0), (0, 1.0000004), (1, 1)], [(0, 0), (0, 1), (1, 1)]].
         3 \<le> length R \<and> cacheKey R = cacheKey [(0, 0), (0, 1.0000004), (1, 1)]
         \<and> fst (calculatePolygonArea_p0 (areaCacheAfter_p0 [[(0, 0), (0, 1), (1, 1)]])
                  [(0, 0), (0, 1.0000004), (1, 1)]) = shoelaceAreaKm2 R)
   \<and> (\<exists>R\<in>set [[(0, 0), (0, 1.0000004), (1, 1)], [(0, 0), (0, 1), (1, 1)]].
         3 \<le> length R \<and> cacheKey R = cacheKey [(0, 0), (0, 1.0000004), (1, 1)]
         \<and> fst (calculatePolygonArea_p1 (areaCacheAfter_p1 [[(0, 0), (0, 1), (1, 1)]])
                  [(0, 0), (0, 1.0000004), (1, 1)]) = shoelaceAreaKm2 R)"
proof -
  note t = area_formula_through_cache
    [where points = "[(0, 0), (0, 1.0000004), (1, 1)]" and calls = "[[(0, 0), (0, 1), (1, 1)]]"]
  have l: "3 \<le> length [(0 :: real, 0 :: real), (0, 1.0000004), (1, 1)]"
    by simp
  from t [THEN conjunct1]
  have a: "calculatePolygonArea [(0, 0), (0, 1.0000004), (1, 1)]
           = shoelaceAreaKm2 [(0, 0), (0, 1.0000004), (1, 1)]"
    by simp
  from t [THEN conjunct2, THEN conjunct2, THEN conjunct2, THEN conjunct1, THEN mp, OF l]
    t [THEN conjunct2, THEN conjunct2, THEN conjunct2, THEN conjunct2, THEN mp, OF l] a
  show ?thesis
    by (intro conjI)
qed

section \<open>Area and orientation\<close>

lemma map_of_append_fresh:
  "k' \<notin> fst ` set c \<Longrightarrow> map_of (c @ [(k, v)]) k' = (if k' = k then Some v else None)"
  by (induction c) auto

lemma store50_lookup:
  assumes "k \<notin> fst ` set c" and "k' \<notin> fst ` set c"
  shows "cache_get (store50 c k v) k' = (if k' = k then Some v else None)"
proof -
  define c' where "c' = (if length c < 50 then c else fold cache_delete (take 25 (map fst c)) c)"
  have sub: "set c' \<subseteq> set c"
    using fold_cache_delete_subset [of "take 25 (map fst c)" c] by (simp add: c'_def)
  with assms have f: "k \<notin> fst ` set c'" "k' \<notin> fst ` set c'" by auto
  have "store50 c k v = cache_set c' k v"
    by (simp add: store50_def c'_def Let_def)
  also have "\<dots> = c' @ [(k, v)]"
    using f(1) by (rule cache_set_new)
  finally show ?thesis
    using f(2) by (simp add: cache_get_def map_of_append_fresh del: map_of_append)
qed

lemma store100_lookup:
  assumes "k \<notin> fst ` set c" and "k' \<notin> fst ` set c"
  shows "cache_get (store100 c k v) k' = (if k' = k \<and> length c < 100 then Some v else None)"
proof (cases "length c < 100")
  case True
  then have "store100 c k v = cache_set c k v"
    by (simp add: store100_def)
  also have "\<dots> = c @ [(k, v)]"
    using assms(1) by (rule cache_set_new)
  finally show ?thesis
    using assms(2) True by (simp add: cache_get_def map_of_append_fresh del: map_of_append)
next
  case False
  with assms(2) show ?thesis
    by (simp add: store100_def cache_get_None)
qed

lemma area_then_reversed_p0:
  assumes "cache_get c (cacheKey R) = None" and "cache_get c (cacheKey (rev R)) = None"
  shows "fst (calculatePolygonArea_p0 (snd (calculatePolygonArea_p0 c R)) (rev R))
         = fst (calculatePolygonArea_p0 c R)"
proof (cases "length R < 3")
  case True
  then show ?thesis by (simp add: calculatePolygonArea_p0_def)
next
  case False
  from assms have f: "cacheKey R \<notin> fst ` set c" "cacheKey (rev R) \<notin> fst ` set c"
    by (simp_all add: cache_get_None)
  have 1: "calculatePolygonArea_p0 c R
           = (shoelaceAreaKm2 R, store50 c (cacheKey R) (shoelaceAreaKm2 R))"
    using False assms(1) by (simp add: calculatePolygonArea_p0_def areaKm2_p0_formula)
  show ?thesis
    using False
    by (simp add: 1 cached_area_value store50_lookup [OF f] shoelaceAreaKm2_rev)
qed

lemma area_then_reversed_p1:
  assumes "cache_get c (cacheKey R) = None" and "cache_get c (cacheKey (rev R)) = None"
  shows "fst (calculatePolygonArea_p1 (snd (calculatePolygonArea_p1 c R)) (rev R))
         = fst (calculatePolygonArea_p1 c R)"
proof (cases "length R < 3")
  case True
  then show ?thesis by (simp add: calculatePolygonArea_p1_def)
next
  case False
  from assms have f: "cacheKey R \<notin> fst ` set c" "cacheKey (rev R) \<notin> fst ` set c"
    by (simp_all add: cache_get_None)
  have 1: "calculatePolygonArea_p1 c R
           = (shoelaceAreaKm2 R, store100 c (cacheKey R) (shoelaceAreaKm2 R))"
    using False assms(1) by (simp add: calculatePolygonArea_p1_def areaKm2_p0_formula)
  show ?thesis
    using False
    by (simp add: 1 cached_area_value store100_lookup [OF f] shoelaceAreaKm2_rev)
qed

lemma cached_area_nonneg_p0:
  assumes "\<forall>p\<in>set R. \<bar>fst p\<bar> \<le> 90" and "\<forall>Q\<in>set calls. \<forall>p\<in>set Q. \<bar>fst p\<bar> \<le> 90"
  shows "0 \<le> fst (calculatePolygonArea_p0 (areaCacheAfter_p0 calls) R)"
proof (cases "cache_get (areaCacheAfter_p0 calls) (cacheKey R)")
  case None
  then show ?thesis
    using shoelaceAreaKm2_nonneg [OF assms(1)] by (simp add: cached_area_value)
next
  case (Some v)
  from areaCacheFrom_hit [OF areaCacheAfter_p0_from Some] obtain Q
    where "Q \<in> set calls" "v = shoelaceAreaKm2 Q"
    by blast
  with assms(2) have "0 \<le> v"
    by (auto intro: shoelaceAreaKm2_nonneg)
  with Some show ?thesis by (simp add: cached_area_value)
qed

lemma cached_area_nonneg_p1:
  assumes "\<forall>p\<in>set R. \<bar>fst p\<bar> \<le> 90" and "\<forall>Q\<in>set calls. \<forall>p\<in>set Q. \<bar>fst p\<bar> \<le> 90"
  shows "0 \<le> fst (calculatePolygonArea_p1 (areaCacheAfter_p1 calls) R)"
proof (cases "cache_get (areaCacheAfter_p1 calls) (cacheKey R)")
  case None
  then show ?thesis
    using shoelaceAreaKm2_nonneg [OF assms(1)] by (simp add: cached_area_value)
next
  case (Some v)
  from areaCacheFrom_hit [OF areaCacheAfter_p1_from Some] obtain Q
    where "Q \<in> set calls" "v = shoelaceAreaKm2 Q"
    by blast
  with assms(2) have "0 \<le> v"
    by (auto intro: shoelaceAreaKm2_nonneg)
  with Some show ?thesis by (simp add: cached_area_value)
qed

lemma cached_area_single_miss:
  assumes "cacheKey points \<noteq> k" and "3 \<le> length points"
  shows "fst (calculatePolygonArea_p0 [(k, v)] points) = shoelaceAreaKm2 points"
    and "fst (calculatePolygonArea_p1 [(k, v)] points) = shoelaceAreaKm2 points"
  using assms by (simp_all add: cached_area_value cache_get_def)

text \<open>
  Claim C8, as stated, has the area of the reversed list equal the area of the list for
  every ring. In \<open>part_000\<close>, after one call on \<open>[[0, 0], [0, 1], [1, 1]]\<close>, the ring
  \<open>[[0, 0], [0, 1.0000004], [1, 1]]\<close> gets the area of the first triangle from the
  cache; its reversal has another key, is computed afresh, and gets the area of the
  second triangle.
\<close>

theorem area_reversed_after_hit_counterexample:
  "plausible (0, 0) \<and> plausible (0, 1.0000004) \<and> plausible (1, 1)
   \<and> fst (calculatePolygonArea_p0 (areaCacheAfter_p0 [[(0, 0), (0, 1), (1, 1)]])
            [(0, 0), (0, 1.0000004), (1, 1)])
       = shoelaceAreaKm2 [(0, 0), (0, 1), (1, 1)]
   \<and> fst (calculatePolygonArea_p0
            (snd (calculatePolygonArea_p0 (areaCacheAfter_p0 [[(0, 0), (0, 1), (1, 1)]])
                   [(0, 0), (0, 1.0000004), (1, 1)]))
            (rev [(0, 0), (0, 1.0000004), (1, 1)]))
       = shoelaceAreaKm2 [(0, 0), (0, 1.0000004), (1, 1)]
   \<and> shoelaceAreaKm2 [(0, 0), (0, 1), (1, 1)]
       \<noteq> shoelaceAreaKm2 [(0, 0), (0, 1.0000004), (1, 1)]"
proof -
  let ?T1 = "[(0, 0), (0, 1), (1, 1)] :: ring"
  let ?T2 = "[(0, 0), (0, 1.0000004), (1, 1)] :: ring"
  have l: "3 \<le> length ?T1" "3 \<le> length ?T2" "3 \<le> length (rev ?T2)" by simp_all
  have p: "plausible (0, 0)" "plausible (0, 1.0000004)" "plausible (1, 1)"
    by (simp_all add: plausible_def)
  have n: "cacheKey (rev ?T2) \<noteq> cacheKey ?T1"
    by (simp only: cacheKey_near_rev cacheKey_triangle_values) simp
  have a: "fst (calculatePolygonArea_p0 (areaCacheAfter_p0 [?T1]) ?T2) = shoelaceAreaKm2 ?T1"
    by (simp only: areaCacheAfter_single [OF l(1)] cached_area_single_hit [OF cacheKey_near l(2)]
        fst_conv)
  have b: "fst (calculatePolygonArea_p0
                  (snd (calculatePolygonArea_p0 (areaCacheAfter_p0 [?T1]) ?T2)) (rev ?T2))
           = shoelaceAreaKm2 ?T2"
    by (simp only: areaCacheAfter_single [OF l(1)] cached_area_single_hit [OF cacheKey_near l(2)]
        snd_conv cached_area_single_miss [OF n l(3)] shoelaceAreaKm2_rev)
  from p a b shoelaceAreaKm2_near_differ show ?thesis
    by (intro conjI)
qed

text \<open>
  Claim C8, amended, for a ring whose latitudes lie within \<open>[-90, 90]\<close> and with the
  numbers read as reals (under the rounding of doubles the sums of the two traversals can
  differ in the last digits). In \<open>map-script.js\<close>, and for the value the cached variants
  compute and store, the area is not negative and the reversed vertex list has the same
  area. A call of a cached variant returns a value that is not negative when the earlier
  calls, from the empty cache on, were made on lists with latitudes in that range. When
  neither the key of the ring nor the key of its reversal is in the cache, the call on
  the ring followed by the call on its reversal returns the same area twice.
\<close>

theorem area_orientation_through_cache:
  assumes "\<forall>p\<in>set R. \<bar>fst p\<bar> \<le> 90"
  shows "0 \<le> calculatePolygonArea R
         \<and> calculatePolygonArea (rev R) = calculatePolygonArea R
         \<and> 0 \<le> areaKm2_p0 R
         \<and> areaKm2_p0 (rev R) = areaKm2_p0 R
         \<and> ((\<forall>Q\<in>set calls. \<forall>p\<in>set Q. \<bar>fst p\<bar> \<le> 90) \<longrightarrow>
              0 \<le> fst (calculatePolygonArea_p0 (areaCacheAfter_p0 calls) R)
              \<and> 0 \<le> fst (calculatePolygonArea_p1 (areaCacheAfter_p1 calls) R))
         \<and> (cache_get c (cacheKey R) = None \<and> cache_get c (cacheKey (rev R)) = None \<longrightarrow>
              fst (calculatePolygonArea_p0 (snd (calculatePolygonArea_p0 c R)) (rev R))
              = fst (calculatePolygonArea_p0 c R))
         \<and> (cache_get c' (cacheKey R) = None \<and> cache_get c' (cacheKey (rev R)) = None \<longrightarrow>
              fst (calculatePolygonArea_p1 (snd (calculatePolygonArea_p1 c' R)) (rev R))
              = fst (calculatePolygonArea_p1 c' R))"
  using shoelaceAreaKm2_nonneg [OF assms] cached_area_nonneg_p0 [OF assms, of calls]
    cached_area_nonneg_p1 [OF assms, of calls] area_then_reversed_p0 [of c R]
    area_then_reversed_p1 [of c' R]
  by (simp add: calculatePolygonArea_formula areaKm2_p0_formula shoelaceAreaKm2_rev)

theorem area_orientation_through_cache_witness:
  "0 \<le> calculatePolygonArea [(0, 0), (0, 1), (1, 1), (1, 0)]
   \<and> calculatePolygonArea (rev [(0, 0), (0, 1), (1, 1), (1, 0)])
       = calculatePolygonArea [(0, 0), (0, 1), (1, 1), (1, 0)]
   \<and> 0 \<le> fst (calculatePolygonArea_p0 (areaCacheAfter_p0 [[(0, 0), (0, 1), (1, 1)]])
                  [(0, 0), (0, 1), (1, 1), (1, 0)])
   \<and> 0 \<le> fst (calculatePolygonArea_p1 (areaCacheAfter_p1 [[(0, 0), (0, 1), (1, 1)]])
                  [(0, 0), (0, 1), (1, 1), (1, 0)])
   \<and> fst (calculatePolygonArea_p0 (snd (calculatePolygonArea_p0 [] [(0, 0), (0, 1), (1, 1), (1, 0)]))
            (rev [(0, 0), (0, 1), (1, 1), (1, 0)]))
       = fst (calculatePolygonArea_p0 [] [(0, 0), (0, 1), (1, 1), (1, 0)])
   \<and> fst (calculatePolygonArea_p1 (snd (calculatePolygonArea_p1 [] [(0, 0), (0, 1), (1, 1), (1, 0)]))
            (rev [(0, 0), (0, 1), (1, 1), (1, 0)]))
       = fst (calculatePolygonArea_p1 [] [(0, 0), (0, 1), (1, 1), (1, 0)])"
  using area_orientation_through_cache
    [where R = "[(0, 0), (0, 1), (1, 1), (1, 0)]" and calls = "[[(0, 0), (0, 1), (1, 1)]]"
       and c = "[]" and c' = "[]"]
  by (simp add: cache_get_def)

section \<open>Perimeter\<close>

lemma hav_bounds:
  fixes x y l :: real
  defines "a \<equiv> sin ((y - x) / 2) * sin ((y - x) / 2) + cos x * cos y * sin (l / 2) * sin (l / 2)"
  shows "0 \<le> a \<and> a \<le> 1"
proof -
  define s where "s = sin (l / 2) * sin (l / 2)"
  define d where "d = y - x"
  have s0: "0 \<le> s" by (simp add: s_def)
  have "s = (sin (l / 2))\<^sup>2" by (simp add: s_def power2_eq_square)
  then have s1: "s \<le> 1" using sin_squared_eq [of "l / 2"] by (simp add: abs_square_le_1)
  have sd: "sin (d / 2) * sin (d / 2) = (1 - cos d) / 2"
    using cos_double_sin [of "d / 2"] by (simp add: power2_eq_square)
  have cc: "cos x * cos y = (cos d + cos (x + y)) / 2"
    using cos_times_cos [of x y] cos_minus [of d] by (simp add: d_def)
  have "a = (1 - cos d) / 2 + (cos d + cos (x + y)) / 2 * s"
    unfolding a_def d_def [symmetric] sd cc s_def by (simp only: mult.assoc)
  then have a: "a = (1 - (1 - s) * cos d + s * cos (x + y)) / 2"
    by (simp add: field_simps)
  have "(1 - s) * cos d \<le> (1 - s) * 1"
    by (rule mult_left_mono) (use s1 in simp_all)
  moreover have "(1 - s) * (- 1) \<le> (1 - s) * cos d"
    by (rule mult_left_mono) (use s1 in simp_all)
  moreover have "s * cos (x + y) \<le> s * 1"
    by (rule mult_left_mono) (use s0 in simp_all)
  moreover have "s * (- 1) \<le> s * cos (x + y)"
    by (rule mult_left_mono) (use s0 in simp_all)
  ultimately show ?thesis
    unfolding a by simp
qed

lemma havA_bounds: "0 \<le> havA p q \<and> havA p q \<le> 1"
  using hav_bounds [of "fst q * pi / 180" "fst p * pi / 180" "(snd q - snd p) * pi / 180"]
  by (simp add: havA_def)

lemma sin_half_diff_sq:
  "sin ((a - b) / 2) * sin ((a - b) / 2) = sin ((b - a) / 2) * sin ((b - a) / 2)" for a b :: real
proof -
  have "(a - b) / 2 = - ((b - a) / 2)"
    by (simp add: field_simps)
  then have "sin ((a - b) / 2) = - sin ((b - a) / 2)"
    by (simp only: sin_minus)
  then show ?thesis by simp
qed

lemma havA_sym: "havA q p = havA p q"
proof -
  have 1: "sin ((fst p * pi / 180 - fst q * pi / 180) / 2) * sin ((fst p * pi / 180 - fst q * pi / 180) / 2)
           = sin ((fst q * pi / 180 - fst p * pi / 180) / 2) * sin ((fst q * pi / 180 - fst p * pi / 180) / 2)"
    by (rule sin_half_diff_sq)
  have "(snd p - snd q) * pi / 180 = snd p * pi / 180 - snd q * pi / 180"
       "(snd q - snd p) * pi / 180 = snd q * pi / 180 - snd p * pi / 180"
    by (simp_all add: algebra_simps diff_divide_distrib)
  then have 2: "sin ((snd p - snd q) * pi / 180 / 2) * sin ((snd p - snd q) * pi / 180 / 2)
           = sin ((snd q - snd p) * pi / 180 / 2) * sin ((snd q - snd p) * pi / 180 / 2)"
    by (simp only: sin_half_diff_sq)
  have "havA q p = sin ((fst p * pi / 180 - fst q * pi / 180) / 2) * sin ((fst p * pi / 180 - fst q * pi / 180) / 2)
             + cos (fst q * pi / 180) * cos (fst p * pi / 180)
               * (sin ((snd p - snd q) * pi / 180 / 2) * sin ((snd p - snd q) * pi / 180 / 2))"
    by (simp only: havA_def mult.assoc)
  also have "\<dots> = sin ((fst q * pi / 180 - fst p * pi / 180) / 2) * sin ((fst q * pi / 180 - fst p * pi / 180) / 2)
             + cos (fst p * pi / 180) * cos (fst q * pi / 180)
               * (sin ((snd q - snd p) * pi / 180 / 2) * sin ((snd q - snd p) * pi / 180 / 2))"
    by (simp only: 1 2 mult.commute [of "cos (fst q * pi / 180)"])
  also have "\<dots> = havA p q"
    by (simp only: havA_def mult.assoc)
  finally show ?thesis .
qed

lemma haversine_Fin: "haversine p q = Fin (greatCircle (p, q))"
  using havA_bounds [of p q]
  by (simp add: haversine_def Let_def arcDistance_def greatCircle_def havA_def)

lemma greatCircle_swap: "greatCircle (prod.swap e) = greatCircle e"
  by (simp add: greatCircle_def havA_sym [of "snd e" "fst e"])

lemma fold_js_add_Fin:
  "fold (\<lambda>x acc. js_add acc (Fin (h x))) xs (Fin a0) = Fin (a0 + sum_list (map h xs))"
  by (induction xs arbitrary: a0) (simp_all add: algebra_simps)


lemma calculatePolygonPerimeter_edges:
  "calculatePolygonPerimeter ps = Fin (sum_list (map greatCircle (edges ps)) / 1000)"
proof -
  have "perimeterStep ps
        = (\<lambda>i acc. js_add acc (Fin (greatCircle (ps ! i, ps ! (Suc i mod length ps)))))"
    by (rule ext)+ (simp add: perimeterStep_def Let_def haversine_Fin)
  then have "fold (perimeterStep ps) [0..<length ps] (Fin 0)
             = Fin (0 + sum_list (map (\<lambda>i. greatCircle (ps ! i, ps ! (Suc i mod length ps)))
                                   [0..<length ps]))"
    by (simp only: fold_js_add_Fin)
  then show ?thesis
    by (simp add: calculatePolygonPerimeter_def sum_list_upt_edges js_scale_def)
qed

lemma sum_list_mset_cong:
  "mset xs = mset ys \<Longrightarrow> sum_list (map h xs) = (sum_list (map h ys) :: real)"
  by (metis mset_map sum_mset_sum_list)

lemma calculatePolygonPerimeter_rotate:
  "calculatePolygonPerimeter (rotate k ps) = calculatePolygonPerimeter ps"
  by (simp add: calculatePolygonPerimeter_edges edges_rotate
      sum_list_mset_cong [OF mset_rotate])

lemma calculatePolygonPerimeter_rev:
  "calculatePolygonPerimeter (rev ps) = calculatePolygonPerimeter ps"
proof -
  have "mset (edges (rev ps)) = mset (map prod.swap (edges ps))"
    by (simp add: edges_rev)
  then have "sum_list (map greatCircle (edges (rev ps)))
             = sum_list (map greatCircle (map prod.swap (edges ps)))"
    by (rule sum_list_mset_cong)
  also have "\<dots> = sum_list (map greatCircle (edges ps))"
    by (simp add: comp_def greatCircle_swap)
  finally show ?thesis
    by (simp add: calculatePolygonPerimeter_edges)
qed


text \<open>
  The perimeter of \<open>map-script.js\<close> does not depend on the vertex the list starts
  with, nor on its direction.
\<close>

lemma calculatePolygonPerimeter_invariant:
  "calculatePolygonPerimeter (rotate k R) = calculatePolygonPerimeter R
   \<and> calculatePolygonPerimeter (rev R) = calculatePolygonPerimeter R"
  by (simp add: calculatePolygonPerimeter_rotate calculatePolygonPerimeter_rev)

text \<open>Values of the last Haversine lines and of the step of \<open>part_000\<close> on a triangle.\<close>

lemma arcDistance_0: "arcDistance 0 = Fin 0"
  by (simp add: arcDistance_def atan2_def)

lemma arcDistance_1: "arcDistance 1 = Fin (6371000 * pi)"
  by (simp add: arcDistance_def atan2_def)

lemma arcDistance_half: "arcDistance (1 / 2) = Fin (6371000 * (pi / 2))"
proof -
  have "0 < sqrt (1 / 2 :: real)" by simp
  then have "atan2 (sqrt (1 / 2)) (sqrt (1 / 2)) = pi / 4"
    by (simp add: atan2_def arctan_one del: real_sqrt_gt_0_iff)
  then show ?thesis
    by (simp add: arcDistance_def)
qed

lemma haversine_p0_equator: "haversine_p0 c (0, 0) (0, 180) = arcDistance c"
  by (simp add: haversine_p0_def Let_def)

lemma haversine_p0_to_pole: "haversine_p0 c (0, 180) (90, 0) = arcDistance (1 / 2)"
  by (simp add: haversine_p0_def Let_def sin_45)

lemma haversine_p0_from_pole: "haversine_p0 c (90, 0) (0, 0) = arcDistance (1 / 2)"
  by (simp add: haversine_p0_def Let_def sin_45)

lemma haversine_p0_equator_back: "haversine_p0 c (0, 180) (0, 0) = arcDistance c"
  by (simp add: haversine_p0_def Let_def)

lemma haversine_p0_to_pole_back: "haversine_p0 c (90, 0) (0, 180) = arcDistance (1 / 2 + c)"
  by (simp add: haversine_p0_def Let_def sin_45)

lemma haversine_p0_from_pole_back: "haversine_p0 c (0, 0) (90, 0) = arcDistance (1 / 2)"
  by (simp add: haversine_p0_def Let_def sin_45)

lemma upt_3: "[0..<3] = [0, 1, 2]"
  by (simp add: upt_rec)

lemmas triangle_steps =
  haversine_p0_equator haversine_p0_to_pole haversine_p0_from_pole
  haversine_p0_equator_back haversine_p0_to_pole_back haversine_p0_from_pole_back
  arcDistance_0 arcDistance_1 arcDistance_half

lemma perimeterKm_p0_triangle:
  "perimeterKm_p0 [(0, 0), (0, 180), (90, 0)] = Fin (12742 * pi)"
  by (simp add: perimeterKm_p0_def perimeterStep_p0_def upt_3 Let_def triangle_steps js_scale_def)

lemma perimeterKm_p0_triangle_rotated:
  "perimeterKm_p0 [(90, 0), (0, 0), (0, 180)] = Fin (6371 * pi)"
  by (simp add: perimeterKm_p0_def perimeterStep_p0_def upt_3 Let_def triangle_steps js_scale_def)

lemma perimeterKm_p0_triangle_reversed:
  "perimeterKm_p0 [(90, 0), (0, 180), (0, 0)] = Fin (6371 * pi)"
  by (simp add: perimeterKm_p0_def perimeterStep_p0_def upt_3 Let_def triangle_steps js_scale_def)

lemma cacheKey_triangle:
  "cacheKey [(0, 0), (0, 180), (90, 0)] = ''0.000000,0.000000|0.000000,180.000000|90.000000,0.000000''"
  by (simp add: cacheKey_def toFixed6_def Let_def digitChar_def)

lemma cacheKey_triangle_rotated:
  "cacheKey [(90, 0), (0, 0), (0, 180)] = ''90.000000,0.000000|0.000000,0.000000|0.000000,180.000000''"
  by (simp add: cacheKey_def toFixed6_def Let_def digitChar_def)

lemma cacheKey_triangle_reversed:
  "cacheKey [(90, 0), (0, 180), (0, 0)] = ''90.000000,0.000000|0.000000,180.000000|0.000000,0.000000''"
  by (simp add: cacheKey_def toFixed6_def Let_def digitChar_def)

text \<open>
  Claim C3 on \<open>part_000\<close> and \<open>part_001\<close>. The triangle \<open>[[0, 0], [0, 180], [90, 0]]\<close>
  is measured first, from empty caches; then, with the cache that call leaves, the same
  triangle started at its third vertex, and the same triangle reversed. The first call
  returns \<open>12742 * pi\<close> km, the other two \<open>6371 * pi\<close> km: \<open>cosLat1\<close> is the cosine
  of the latitude of whichever vertex comes first. \<open>map-script.js\<close> returns
  \<open>12742 * pi\<close> km for all three lists.
\<close>

theorem perimeter_p0_depends_on_first_vertex:
  "rotate 2 ([(0, 0), (0, 180), (90, 0)] :: ring) = [(90, 0), (0, 0), (0, 180)]
   \<and> rev ([(0, 0), (0, 180), (90, 0)] :: ring) = [(90, 0), (0, 180), (0, 0)]
   \<and> fst (calculatePolygonPerimeter_p0 [] [(0, 0), (0, 180), (90, 0)]) = Fin (12742 * pi)
   \<and> fst (calculatePolygonPerimeter_p0
            (snd (calculatePolygonPerimeter_p0 [] [(0, 0), (0, 180), (90, 0)]))
            [(90, 0), (0, 0), (0, 180)]) = Fin (6371 * pi)
   \<and> fst (calculatePolygonPerimeter_p0
            (snd (calculatePolygonPerimeter_p0 [] [(0, 0), (0, 180), (90, 0)]))
            [(90, 0), (0, 180), (0, 0)]) = Fin (6371 * pi)
   \<and> fst (calculatePolygonPerimeter_p1 [] [(0, 0), (0, 180), (90, 0)]) = Fin (12742 * pi)
   \<and> fst (calculatePolygonPerimeter_p1
            (snd (calculatePolygonPerimeter_p1 [] [(0, 0), (0, 180), (90, 0)]))
            [(90, 0), (0, 0), (0, 180)]) = Fin (6371 * pi)
   \<and> calculatePolygonPerimeter [(0, 0), (0, 180), (90, 0)] = Fin (12742 * pi)
   \<and> calculatePolygonPerimeter [(90, 0), (0, 0), (0, 180)] = Fin (12742 * pi)
   \<and> calculatePolygonPerimeter [(90, 0), (0, 180), (0, 0)] = Fin (12742 * pi)"
proof -
  let ?T = "[(0, 0), (0, 180), (90, 0)] :: ring"
  have r: "rotate 2 ?T = [(90, 0), (0, 0), (0, 180)]"
    by (simp add: numeral_2_eq_2)
  have c0: "calculatePolygonPerimeter_p0 [] ?T = (Fin (12742 * pi), [(cacheKey ?T, Fin (12742 * pi))])"
    by (simp add: calculatePolygonPerimeter_p0_def cache_get_def store50_def cache_set_def
        perimeterKm_p0_triangle)
  have c1: "calculatePolygonPerimeter_p1 [] ?T = (Fin (12742 * pi), [(cacheKey ?T, Fin (12742 * pi))])"
    by (simp add: calculatePolygonPerimeter_p1_def cache_get_def store100_def cache_set_def
        perimeterKm_p0_triangle)
  have k1: "cacheKey [(90, 0), (0, 0), (0, 180)] \<noteq> cacheKey ?T"
    by (simp add: cacheKey_triangle cacheKey_triangle_rotated)
  have k2: "cacheKey [(90, 0), (0, 180), (0, 0)] \<noteq> cacheKey ?T"
    by (simp add: cacheKey_triangle cacheKey_triangle_reversed)
  have m: "calculatePolygonPerimeter ?T = Fin (12742 * pi)"
    by (simp add: calculatePolygonPerimeter_def perimeterStep_def upt_3 Let_def haversine_def
        sin_45 arcDistance_0 arcDistance_1 arcDistance_half js_scale_def)
  have m1: "calculatePolygonPerimeter [(90, 0), (0, 0), (0, 180)] = Fin (12742 * pi)"
    using calculatePolygonPerimeter_rotate [of 2 ?T] by (simp only: r m)
  have m2: "calculatePolygonPerimeter [(90, 0), (0, 180), (0, 0)] = Fin (12742 * pi)"
    using calculatePolygonPerimeter_rev [of ?T] by (simp add: m)
  have a1: "fst (calculatePolygonPerimeter_p0 (snd (calculatePolygonPerimeter_p0 [] ?T))
                  [(90, 0), (0, 0), (0, 180)]) = Fin (6371 * pi)"
    using k1 by (simp add: c0) (simp add: calculatePolygonPerimeter_p0_def cache_get_def
        perimeterKm_p0_triangle_rotated)
  have a2: "fst (calculatePolygonPerimeter_p0 (snd (calculatePolygonPerimeter_p0 [] ?T))
                  [(90, 0), (0, 180), (0, 0)]) = Fin (6371 * pi)"
    using k2 by (simp add: c0) (simp add: calculatePolygonPerimeter_p0_def cache_get_def
        perimeterKm_p0_triangle_reversed)
  have a3: "fst (calculatePolygonPerimeter_p1 (snd (calculatePolygonPerimeter_p1 [] ?T))
                  [(90, 0), (0, 0), (0, 180)]) = Fin (6371 * pi)"
    using k1 by (simp add: c1) (simp add: calculatePolygonPerimeter_p1_def cache_get_def
        perimeterKm_p0_triangle_rotated)
  show ?thesis
    using r a1 a2 a3 m m1 m2 by (simp add: c0 c1)
qed

section \<open>The repairs of the checker\<close>

lemma acceptMapped_Cons:
  "acceptMapped f (c # cs) = (if plausible (f c) then Got (map f (c # cs)) else Null)"
  by (simp add: acceptMapped_def)

lemma acceptMapped_Got:
  "acceptMapped f coordinates = Got r \<Longrightarrow>
     r = map f coordinates \<and> coordinates \<noteq> [] \<and> plausible (f (hd coordinates))"
  by (cases coordinates) (auto simp: acceptMapped_def split: if_splits)

lemma tryEach_Got:
  "tryEach f scales coordinates = Got r \<Longrightarrow>
     \<exists>s\<in>set scales. r = map (f s) coordinates \<and> coordinates \<noteq> [] \<and> plausible (f s (hd coordinates))"
proof (induction scales)
  case Nil
  then show ?case by simp
next
  case (Cons s scales)
  show ?case
  proof (cases "acceptMapped (f s) coordinates")
    case Threw
    with Cons.prems show ?thesis by (simp add: orElse_def)
  next
    case Null
    with Cons show ?thesis by (simp add: orElse_def)
  next
    case (Got r')
    with Cons.prems have "r' = r" by (simp add: orElse_def)
    with Got acceptMapped_Got [of "f s" coordinates r] show ?thesis by simp
  qed
qed

lemma tryEach_Cons_Null:
  "tryEach f scales (c # cs) = Null \<longleftrightarrow> (\<forall>s\<in>set scales. \<not> plausible (f s c))"
  by (induction scales) (auto simp: acceptMapped_Cons orElse_def)

lemma tryEach_Cons_not_Threw: "tryEach f scales (c # cs) \<noteq> Threw"
  by (induction scales) (auto simp: acceptMapped_Cons orElse_def)

lemma tryEach_first:
  "plausible (f s c) \<Longrightarrow> tryEach f (s # scales) (c # cs) = Got (map (f s) (c # cs))"
  by (simp add: acceptMapped_Cons orElse_def)

text \<open>When dividing by \<open>10^7\<close> does not help, the first vertex is far out.\<close>

lemma tryScalingTransform_Null:
  assumes "tryScalingTransform (c # cs) = Null"
  shows "\<bar>fst c\<bar> > 900000000 \<or> \<bar>snd c\<bar> > 1800000000"
proof -
  from assms have "\<not> plausible (scalePt 10000000 c)"
    by (simp add: tryScalingTransform_def tryEach_Cons_Null del: tryEach.simps)
  then show ?thesis
    by (auto simp: plausible_def scalePt_def abs_le_iff field_simps)
qed

lemma far_offset_Null:
  assumes "\<bar>fst c\<bar> > 900000000 \<or> \<bar>snd c\<bar> > 1800000000"
  shows "tryOffsetTransform (c # cs) = Null"
  using assms
  by (auto simp: tryOffsetTransform_def tryEach_Cons_Null plausible_def offsetPt_def
      simp del: tryEach.simps)

lemma far_mixed_Null:
  assumes "\<bar>fst c\<bar> > 900000000 \<or> \<bar>snd c\<bar> > 1800000000"
  shows "tryMixedTransform (c # cs) = Null"
  using assms
  by (auto simp: tryMixedTransform_def tryEach_Cons_Null plausible_def swapPt_def scalePt_def
      abs_le_iff field_simps simp del: tryEach.simps)



lemma repairedI:
  "f \<in> vertexMaps coordinates \<Longrightarrow> r = map f coordinates \<Longrightarrow> coordinates \<noteq> [] \<Longrightarrow>
   plausible (f (hd coordinates)) \<Longrightarrow> repaired coordinates r"
  by (auto simp: repaired_def)

lemma repaired_hd: "repaired coordinates r \<Longrightarrow> r \<noteq> [] \<and> plausible (hd r)"
  by (auto simp: repaired_def hd_map)

lemma swapScalePt_comp: "swapPt \<circ> scalePt s = swapScalePt s"
  by (rule ext) (simp add: swapPt_def scalePt_def swapScalePt_def)

lemma vertexMaps_members:
  "swapPt \<in> vertexMaps coordinates"
  "minnaPt \<in> vertexMaps coordinates"
  "relocatePt c cs \<in> vertexMaps (c # cs)"
  "scalePt s \<in> vertexMaps coordinates"
  "swapScalePt s \<in> vertexMaps coordinates"
  "offsetPt s \<in> vertexMaps coordinates"
  "utmPt s \<in> vertexMaps coordinates"
  by (simp_all add: vertexMaps_def)

lemma acceptMapped_repaired:
  assumes "acceptMapped f coordinates = Got r" and "f \<in> vertexMaps coordinates"
  shows "repaired coordinates r"
  using acceptMapped_Got [OF assms(1)] assms(2) by (auto intro: repairedI)

lemma tryEach_repaired:
  assumes "tryEach f scales coordinates = Got r" and "\<And>s. f s \<in> vertexMaps coordinates"
  shows "repaired coordinates r"
proof -
  from tryEach_Got [OF assms(1)] obtain s
    where "r = map (f s) coordinates" "coordinates \<noteq> []" "plausible (f s (hd coordinates))"
    by blast
  with assms(2) [of s] show ?thesis
    by (auto intro: repairedI)
qed

lemma trySwapTransform_Got:
  "trySwapTransform coordinates = Got r \<Longrightarrow> repaired coordinates r"
  unfolding trySwapTransform_def
  by (erule acceptMapped_repaired) (rule vertexMaps_members)

lemma tryScalingTransform_Got:
  "tryScalingTransform coordinates = Got r \<Longrightarrow> repaired coordinates r"
  unfolding tryScalingTransform_def
  by (erule tryEach_repaired) (rule vertexMaps_members)

lemma tryOffsetTransform_Got:
  "tryOffsetTransform coordinates = Got r \<Longrightarrow> repaired coordinates r"
  unfolding tryOffsetTransform_def
  by (erule tryEach_repaired) (rule vertexMaps_members)

lemma tryMixedTransform_Got:
  "tryMixedTransform coordinates = Got r \<Longrightarrow> repaired coordinates r"
  unfolding tryMixedTransform_def swapScalePt_comp
  by (erule tryEach_repaired) (rule vertexMaps_members)

lemma orElse_Got: "orElse a b = Got r \<Longrightarrow> a = Got r \<or> b = Got r"
  by (cases a) (simp_all add: orElse_def)

lemma catchNull_Got: "catchNull a = Got r \<longleftrightarrow> a = Got r"
  by (cases a) (simp_all add: catchNull_def)

lemma trySimpleScaling_Got:
  assumes "trySimpleScaling coordinates = Got r"
  shows "repaired coordinates r"
proof (cases coordinates)
  case Nil
  with assms show ?thesis
    by (simp add: trySimpleScaling_def catchNull_def)
next
  case (Cons c cs)
  with assms have
    "orElse (tryScalingTransform coordinates)
       (orElse (trySwapTransform coordinates)
          (orElse (tryOffsetTransform coordinates)
             (orElse (tryMixedTransform coordinates) Null))) = Got r"
    by (simp add: trySimpleScaling_def catchNull_Got)
  then have "tryScalingTransform coordinates = Got r \<or> trySwapTransform coordinates = Got r
             \<or> tryOffsetTransform coordinates = Got r \<or> tryMixedTransform coordinates = Got r"
    by (blast dest: orElse_Got)
  then show ?thesis
    by (blast intro: tryScalingTransform_Got trySwapTransform_Got tryOffsetTransform_Got
        tryMixedTransform_Got)
qed

lemma tryZones_Got:
  "tryZones zones coordinates = Got r \<Longrightarrow> repaired coordinates r"
proof (induction zones)
  case Nil
  then show ?case by simp
next
  case (Cons z zones)
  from Cons.prems have "convertUTMToWGS84 coordinates (fst z) (snd z) = Got r
                        \<or> tryZones zones coordinates = Got r"
    by (auto dest: orElse_Got)
  then show ?case
  proof
    assume "convertUTMToWGS84 coordinates (fst z) (snd z) = Got r"
    then have "acceptMapped (utmPt (snd z)) coordinates = Got r"
      by (simp add: convertUTMToWGS84_def catchNull_Got)
    then show ?thesis
      by (rule acceptMapped_repaired) (rule vertexMaps_members)
  next
    assume "tryZones zones coordinates = Got r"
    then show ?thesis by (rule Cons.IH)
  qed
qed

lemma tryConvertUTMCoordinates_Got:
  assumes "tryConvertUTMCoordinates coordinates = Got r"
  shows "repaired coordinates r"
proof (cases coordinates)
  case Nil
  with assms show ?thesis
    by (simp add: tryConvertUTMCoordinates_def catchNull_def)
next
  case (Cons c cs)
  with assms have "tryZones utmZones coordinates = Got r"
    by (simp add: tryConvertUTMCoordinates_def catchNull_Got split: if_splits)
  then show ?thesis by (rule tryZones_Got)
qed


lemma tryGenericCoordinateTransform_Got:
  assumes "tryGenericCoordinateTransform coordinates = Got r"
  shows "repaired coordinates r"
proof (cases coordinates)
  case Nil
  with assms show ?thesis
    by (simp add: tryGenericCoordinateTransform_def catchNull_def)
next
  case (Cons c cs)
  with assms have
    "tryEach scalePt [1000000, 100000, 10000, 1000, 100] coordinates = Got r
     \<or> tryEach swapScalePt [1000000, 100000, 10000, 1000, 100] coordinates = Got r"
    by (auto simp: tryGenericCoordinateTransform_def catchNull_Got
        simp del: tryEach.simps split: if_splits dest!: orElse_Got)
  then show ?thesis
    by (blast intro: tryEach_repaired vertexMaps_members)
qed




text \<open>The last resort never gives up on a list that is not empty.\<close>

lemma tryAggressiveCorrection_total:
  "tryAggressiveCorrection (c # cs) \<noteq> Null \<and> tryAggressiveCorrection (c # cs) \<noteq> Threw"
proof -
  have "orElse a (orElse b (Got r)) \<noteq> Null" for a b r
    by (cases a; cases b) (simp_all add: orElse_def)
  moreover have "catchNull a \<noteq> Threw" for a
    by (cases a) (simp_all add: catchNull_def)
  moreover have "catchNull a = Null \<longleftrightarrow> a = Null \<or> a = Threw" for a
    by (cases a) (simp_all add: catchNull_def)
  moreover have "orElse a (orElse b (Got r)) \<noteq> Threw"
    if "a \<noteq> Threw" "b \<noteq> Threw" for a b r
    using that by (cases a; cases b) (simp_all add: orElse_def)
  moreover have "tryExtremeScales scales (c # cs) \<noteq> Threw" for scales
    by (induction scales) (auto simp: acceptMapped_Cons orElse_def)
  ultimately show ?thesis
    unfolding tryAggressiveCorrection_def
    by (simp add: tryEach_Cons_not_Threw del: tryEach.simps tryExtremeScales.simps)
qed

text \<open>Inside \<open>validateAndFixCoordinates\<close> the first stage is the division by a power of ten.\<close>

lemma trySwapTransform_Cons:
  "trySwapTransform (c # cs) = (if plausible (swapPt c) then Got (map swapPt (c # cs)) else Null)"
  by (simp add: trySwapTransform_def acceptMapped_Cons)

lemma trySimpleScaling_eq:
  assumes "\<not> plausible (swapPt c)"
  shows "trySimpleScaling (c # cs) = tryScalingTransform (c # cs)"
proof (cases "tryScalingTransform (c # cs)")
  case Threw
  then show ?thesis
    by (simp add: tryScalingTransform_def tryEach_Cons_not_Threw del: tryEach.simps)
next
  case Null
  then have far: "\<bar>fst c\<bar> > 900000000 \<or> \<bar>snd c\<bar> > 1800000000"
    by (rule tryScalingTransform_Null)
  show ?thesis
    using assms
    by (simp add: trySimpleScaling_def Null trySwapTransform_Cons far_offset_Null [OF far]
        far_mixed_Null [OF far] orElse_def catchNull_def)
next
  case (Got r)
  then show ?thesis
    by (simp add: trySimpleScaling_def orElse_def catchNull_def)
qed

lemma atan2_bounds: "- pi \<le> atan2 y x \<and> atan2 y x \<le> pi"
proof -
  have "- (pi / 2) < arctan (y / x)" "arctan (y / x) < pi / 2"
    by (rule arctan_lbound, rule arctan_ubound)
  then show ?thesis
    using pi_gt_zero by (auto simp: atan2_def divide_le_0_iff zero_le_divide_iff)
qed

text \<open>
  \<open>tryConvertMinnaDatum\<close> never returns an array: the longitude it computes is
  \<open>(9 + atan2(...)) * 180 / pi + 0.0001\<close>, which is above 180 whatever the input.
\<close>

lemma minnaPt_not_plausible: "\<not> plausible (minnaPt c)"
proof -
  have "\<exists>t. snd (minnaPt c) = (9 + t) * 180 / pi + 0.0001 \<and> - pi \<le> t"
    unfolding minnaPt_def inverseTM_def Let_def
    by (intro exI conjI) (simp, rule atan2_bounds [THEN conjunct1])
  then obtain t where t: "snd (minnaPt c) = (9 + t) * 180 / pi + 0.0001" "- pi \<le> t"
    by blast
  have "pi < 4" by (rule pi_less_4)
  then have "pi < 9 + t" using t(2) by simp
  then have "180 * pi < (9 + t) * 180" by simp
  then have "180 < (9 + t) * 180 / pi"
    using pi_gt_zero by (simp add: field_simps)
  then have "180 < snd (minnaPt c)" by (simp add: t(1))
  then show ?thesis
    by (simp add: plausible_def)
qed

lemma tryConvertMinnaDatum_never: "tryConvertMinnaDatum coordinates = Null"
  by (cases coordinates)
    (simp_all add: tryConvertMinnaDatum_def catchNull_def acceptMapped_Cons
      minnaPt_not_plausible)


lemma validateAndFixCoordinates_projected:
  assumes "\<not> plausible c" and "\<not> plausible (swapPt c)" and "\<bar>fst c\<bar> > 1000 \<or> \<bar>snd c\<bar> > 1000"
  shows "validateAndFixCoordinates mapCenter (JArray (c # cs)) = projectedChain (c # cs)"
  using assms by (auto simp: validateAndFixCoordinates_def Let_def plausible_def swapPt_def)

lemma projectedChain_cases:
  "(\<exists>r. returned (projectedChain coordinates) = JArray r \<and> repaired coordinates r)
   \<or> projectedChain coordinates =
        \<lparr>returned = JNull,
         shown = [ProjectionError,
                  CoordinateRanges (minOf (map fst coordinates)) (maxOf (map fst coordinates))
                    (minOf (map snd coordinates)) (maxOf (map snd coordinates))]\<rparr>"
proof (cases "trySimpleScaling coordinates")
  case (Got r)
  then show ?thesis
    using trySimpleScaling_Got [OF Got] by (simp add: projectedChain_def)
next
  case Null
  note n1 = this
  show ?thesis
  proof (cases "tryConvertUTMCoordinates coordinates")
    case (Got r)
    then show ?thesis
      using tryConvertUTMCoordinates_Got [OF Got] by (simp add: projectedChain_def n1)
  next
    case Null
    note n2 = this
    show ?thesis
    proof (cases "tryGenericCoordinateTransform coordinates")
      case (Got r)
      then show ?thesis
        using tryGenericCoordinateTransform_Got [OF Got]
        by (simp add: projectedChain_def n1 n2 tryConvertMinnaDatum_never)
    next
      case Null
      then show ?thesis
        by (simp add: projectedChain_def n1 n2 tryConvertMinnaDatum_never)
    next
      case Threw
      then show ?thesis
        by (simp add: projectedChain_def n1 n2 tryConvertMinnaDatum_never)
    qed
  next
    case Threw
    then show ?thesis
      by (cases coordinates) (simp_all add: tryConvertUTMCoordinates_def catchNull_def
          split: attempt.splits if_splits)
  qed
next
  case Threw
  then show ?thesis
    by (cases coordinates) (simp_all add: trySimpleScaling_def catchNull_def
        split: attempt.splits)
qed

section \<open>The order of the repairs\<close>

lemma repair_not_Threw:
  "tryScalingTransform (c # cs) \<noteq> Threw"
  "trySwapTransform (c # cs) \<noteq> Threw"
  "tryOffsetTransform (c # cs) \<noteq> Threw"
  "tryMixedTransform (c # cs) \<noteq> Threw"
  "tryConvertUTMCoordinates coordinates \<noteq> Threw"
  "tryConvertMinnaDatum coordinates \<noteq> Threw"
  "tryGenericCoordinateTransform coordinates \<noteq> Threw"
  by (simp_all add: tryScalingTransform_def trySwapTransform_def tryOffsetTransform_def
      tryMixedTransform_def tryConvertUTMCoordinates_def tryConvertMinnaDatum_def
      tryGenericCoordinateTransform_def tryEach_Cons_not_Threw acceptMapped_Cons catchNull_def
      split: attempt.splits del: tryEach.simps)

lemma attempt_cases_not_Threw:
  assumes "a \<noteq> Threw"
  obtains "a = Null" | r where "a = Got r"
  using assms by (cases a) auto

lemma snd_trySimpleScaling_log: "snd (trySimpleScaling_log coordinates) = trySimpleScaling coordinates"
proof (cases coordinates)
  case Nil
  then show ?thesis
    by (simp add: trySimpleScaling_log_def trySimpleScaling_def catchNull_def)
next
  case (Cons c cs)
  show ?thesis
    unfolding Cons
    using repair_not_Threw(1-4) [of c cs]
    by (simp add: trySimpleScaling_log_def trySimpleScaling_def transformations_def orElse_def
        catchNull_def split: attempt.splits)
qed

lemma snd_projectedChain_log: "snd (projectedChain_log coordinates) = projectedChain coordinates"
  by (simp add: projectedChain_log_def projectedChain_def snd_trySimpleScaling_log Let_def
      split: attempt.splits)

lemma runSteps_Null:
  "snd (runSteps steps coordinates) = Null \<longleftrightarrow> (\<forall>step\<in>set steps. snd step coordinates = Null)"
  by (induction steps) (auto split: attempt.splits)



lemma runSteps_Got:
  "snd (runSteps steps coordinates) = Got r \<Longrightarrow>
   \<exists>before step after. steps = before @ step # after
     \<and> (\<forall>s\<in>set before. snd s coordinates = Null)
     \<and> snd step coordinates = Got r
     \<and> fst (runSteps steps coordinates) = map fst before @ [fst step]"
proof (induction steps)
  case Nil
  then show ?case by simp
next
  case (Cons s steps)
  show ?case
  proof (cases "snd s coordinates = Null")
    case True
    with Cons.prems have "snd (runSteps steps coordinates) = Got r" by simp
    from Cons.IH [OF this] obtain before step after where
      b: "steps = before @ step # after" "\<forall>s\<in>set before. snd s coordinates = Null"
         "snd step coordinates = Got r"
         "fst (runSteps steps coordinates) = map fst before @ [fst step]"
      by blast
    have "s # steps = (s # before) @ step # after
          \<and> (\<forall>s\<in>set (s # before). snd s coordinates = Null)
          \<and> snd step coordinates = Got r
          \<and> fst (runSteps (s # steps) coordinates) = map fst (s # before) @ [fst step]"
      using b True by simp
    then show ?thesis by blast
  next
    case False
    with Cons.prems have "snd s coordinates = Got r"
      by (simp split: attempt.splits)
    then have "s # steps = [] @ s # steps
          \<and> (\<forall>s\<in>set []. snd s coordinates = Null)
          \<and> snd s coordinates = Got r
          \<and> fst (runSteps (s # steps) coordinates) = map fst [] @ [fst s]"
      by simp
    then show ?thesis by blast
  qed
qed

lemma projectedChain_log_runSteps:
  "projectedChain_log (c # cs) = (fst (runSteps repairOrder (c # cs)), chainOutcome (c # cs))"
proof -
  note nt = repair_not_Threw(1-4) [of c cs] repair_not_Threw(5-7) [of "c # cs"]
  show ?thesis
  proof (cases "tryScalingTransform (c # cs)")
    case Threw
    with nt(1) show ?thesis by simp
  next
    case (Got r)
    then show ?thesis
      by (simp add: projectedChain_log_def trySimpleScaling_log_def transformations_def repairOrder_def chainOutcome_def catchNull_def failureOutcome_def)
  next
    case Null
    note a1 = this
    show ?thesis
    proof (cases "trySwapTransform (c # cs)")
      case Threw
      with nt(2) show ?thesis by simp
    next
      case (Got r)
      then show ?thesis
        by (simp add: projectedChain_log_def trySimpleScaling_log_def transformations_def repairOrder_def chainOutcome_def catchNull_def failureOutcome_def
            a1)
    next
      case Null
      note a2 = this
      show ?thesis
      proof (cases "tryOffsetTransform (c # cs)")
        case Threw
        with nt(3) show ?thesis by simp
      next
        case (Got r)
        then show ?thesis
          by (simp add: projectedChain_log_def trySimpleScaling_log_def transformations_def repairOrder_def chainOutcome_def catchNull_def failureOutcome_def
              a1 a2)
      next
        case Null
        note a3 = this
        show ?thesis
        proof (cases "tryMixedTransform (c # cs)")
          case Threw
          with nt(4) show ?thesis by simp
        next
          case (Got r)
          then show ?thesis
            by (simp add: projectedChain_log_def trySimpleScaling_log_def transformations_def repairOrder_def chainOutcome_def catchNull_def failureOutcome_def
                a1 a2 a3)
        next
          case Null
          note a4 = this
          show ?thesis
          proof (cases "tryConvertUTMCoordinates (c # cs)")
            case Threw
            with nt(5) show ?thesis by simp
          next
            case (Got r)
            then show ?thesis
              by (simp add: projectedChain_log_def trySimpleScaling_log_def transformations_def repairOrder_def chainOutcome_def catchNull_def failureOutcome_def
                  a1 a2 a3 a4)
          next
            case Null
            note a5 = this
            show ?thesis
            proof (cases "tryConvertMinnaDatum (c # cs)")
              case Threw
              with nt(6) show ?thesis by simp
            next
              case (Got r)
              then show ?thesis
                by (simp add: projectedChain_log_def trySimpleScaling_log_def transformations_def repairOrder_def chainOutcome_def catchNull_def failureOutcome_def
                    a1 a2 a3 a4 a5)
            next
              case Null
              note a6 = this
              show ?thesis
              proof (cases "tryGenericCoordinateTransform (c # cs)")
                case Threw
                with nt(7) show ?thesis by simp
              next
                case (Got r)
                then show ?thesis
                  by (simp add: projectedChain_log_def trySimpleScaling_log_def transformations_def repairOrder_def chainOutcome_def catchNull_def failureOutcome_def
                      a1 a2 a3 a4 a5 a6)
              next
                case Null
                then show ?thesis
                  by (simp add: projectedChain_log_def trySimpleScaling_log_def transformations_def repairOrder_def chainOutcome_def catchNull_def failureOutcome_def
                      a1 a2 a3 a4 a5 a6)
              qed
            qed
          qed
        qed
      qed
    qed
  qed
qed


lemma runSteps_not_Threw:
  "\<forall>step\<in>set steps. snd step coordinates \<noteq> Threw \<Longrightarrow> snd (runSteps steps coordinates) \<noteq> Threw"
  by (induction steps) (auto split: attempt.splits)

lemma repairOrder_not_Threw: "snd (runSteps repairOrder (c # cs)) \<noteq> Threw"
  by (rule runSteps_not_Threw) (simp add: repairOrder_def repair_not_Threw)

lemma chainOutcome_Null:
  "returned (chainOutcome (c # cs)) = JNull
   \<longleftrightarrow> (\<forall>step\<in>set repairOrder. snd step (c # cs) = Null)"
proof -
  have "returned (chainOutcome (c # cs)) = JNull \<longleftrightarrow> snd (runSteps repairOrder (c # cs)) = Null"
    using repairOrder_not_Threw [of c cs]
    by (simp add: chainOutcome_def failureOutcome_def split: attempt.splits)
  then show ?thesis
    by (simp only: runSteps_Null)
qed

lemma chainOutcome_failure:
  "returned (chainOutcome coordinates) = JNull \<Longrightarrow> chainOutcome coordinates = failureOutcome coordinates"
  by (simp add: chainOutcome_def split: attempt.splits)


lemma validateAndFixCoordinates_chain:
  assumes "\<not> plausible c" and "\<not> plausible (swapPt c)" and "\<bar>fst c\<bar> > 1000 \<or> \<bar>snd c\<bar> > 1000"
  shows "validateAndFixCoordinates mapCenter (JArray (c # cs)) = snd (projectedChain_log (c # cs))"
    and "validateAndFixCoordinates mapCenter (JArray (c # cs)) = chainOutcome (c # cs)"
  using validateAndFixCoordinates_projected [OF assms]
  by (simp_all add: snd_projectedChain_log projectedChain_log_runSteps
      snd_projectedChain_log [of "c # cs", symmetric])








section \<open>What the checker returns for an implausible list\<close>

text \<open>
  Claim C4, as stated, has the checker never return implausible coordinates. For
  \<open>[[500, 500], [500, 501], [501, 501]]\<close> the first vertex is implausible, the swap
  does not help, and neither magnitude is above 1000: \<open>part_000\<close> shows a warning and
  returns the list as it is. \<open>part_001\<close> does the same for
  \<open>[[700000, 450000], [700100, 450100]]\<close>.
\<close>

theorem implausible_returned_counterexample:
  "\<not> plausible (500, 500) \<and> \<not> plausible (swapPt (500, 500))
   \<and> validateAndFixCoordinates (9, 8) (JArray [(500, 500), (500, 501), (501, 501)])
       = \<lparr>returned = JArray [(500, 500), (500, 501), (501, 501)],
          shown = [DifferentSystemWarning]\<rparr>
   \<and> \<not> plausible (700000, 450000) \<and> \<not> plausible (swapPt (700000, 450000))
   \<and> validateAndFixCoordinates_p1 (JArray [(700000, 450000), (700100, 450100)])
       = \<lparr>returned = JArray [(700000, 450000), (700100, 450100)],
          shown = [DifferentSystemWarning]\<rparr>"
  by (simp add: validateAndFixCoordinates_def validateAndFixCoordinates_p1_def Let_def
      plausible_def swapPt_def)

text \<open>
  Claim C4, amended. Let the first vertex be implausible and the swap not help. In
  \<open>part_000\<close>, when \<open>|lat| > 1000\<close> or \<open>|lng| > 1000\<close>, the checker does not return
  its argument. It returns \<open>null\<close>, together with the error notification and the
  coordinate ranges, exactly when every repair of the chain (scaling, swap, offset,
  scale-then-swap, UTM inverse, Minna inverse, generic rescue) returns \<open>null\<close>.
  Otherwise it returns the list of the first repair in that order that returns one: a
  repaired list (same length, every vertex mapped, plausible first vertex), with the
  success notification of that repair. When both magnitudes are at most 1000 it shows
  one warning and returns its argument unchanged. \<open>part_001\<close> always shows the warning
  and returns its argument unchanged.
\<close>

theorem implausible_outcome:
  assumes "\<not> plausible c" and "\<not> plausible (swapPt c)"
  shows "(\<bar>fst c\<bar> > 1000 \<or> \<bar>snd c\<bar> > 1000 \<longrightarrow>
            returned (validateAndFixCoordinates mapCenter (JArray (c # cs))) \<noteq> JArray (c # cs)
            \<and> ((\<exists>r. returned (validateAndFixCoordinates mapCenter (JArray (c # cs))) = JArray r
                     \<and> repaired (c # cs) r)
               \<or> validateAndFixCoordinates mapCenter (JArray (c # cs)) =
                    \<lparr>returned = JNull,
                     shown = [ProjectionError,
                              CoordinateRanges (minOf (map fst (c # cs))) (maxOf (map fst (c # cs)))
                                (minOf (map snd (c # cs))) (maxOf (map snd (c # cs)))]\<rparr>)
            \<and> ((\<forall>step\<in>set repairOrder. snd step (c # cs) = Null)
                 \<longleftrightarrow> validateAndFixCoordinates mapCenter (JArray (c # cs)) =
                    \<lparr>returned = JNull,
                     shown = [ProjectionError,
                              CoordinateRanges (minOf (map fst (c # cs))) (maxOf (map fst (c # cs)))
                                (minOf (map snd (c # cs))) (maxOf (map snd (c # cs)))]\<rparr>)
            \<and> ((\<forall>step\<in>set repairOrder. snd step (c # cs) = Null)
                 \<longleftrightarrow> returned (validateAndFixCoordinates mapCenter (JArray (c # cs))) = JNull)
            \<and> (\<forall>r. returned (validateAndFixCoordinates mapCenter (JArray (c # cs))) = JArray r
                 \<longleftrightarrow> snd (runSteps repairOrder (c # cs)) = Got r)
            \<and> (\<forall>r. snd (runSteps repairOrder (c # cs)) = Got r
                 \<longrightarrow> repaired (c # cs) r
                     \<and> (\<exists>before step after.
                           repairOrder = before @ step # after
                           \<and> (\<forall>s\<in>set before. snd s (c # cs) = Null)
                           \<and> snd step (c # cs) = Got r
                           \<and> shown (validateAndFixCoordinates mapCenter (JArray (c # cs)))
                               = [successNotification (fst step)])))
       \<and> (\<bar>fst c\<bar> \<le> 1000 \<and> \<bar>snd c\<bar> \<le> 1000 \<longrightarrow>
            validateAndFixCoordinates mapCenter (JArray (c # cs)) =
              \<lparr>returned = JArray (c # cs), shown = [DifferentSystemWarning]\<rparr>)
       \<and> validateAndFixCoordinates_p1 (JArray (c # cs)) =
            \<lparr>returned = JArray (c # cs), shown = [DifferentSystemWarning]\<rparr>"
proof (intro conjI impI)
  assume large: "\<bar>fst c\<bar> > 1000 \<or> \<bar>snd c\<bar> > 1000"
  let ?out = "validateAndFixCoordinates mapCenter (JArray (c # cs))"
  let ?failure = "\<lparr>returned = JNull,
                     shown = [ProjectionError,
                              CoordinateRanges (minOf (map fst (c # cs))) (maxOf (map fst (c # cs)))
                                (minOf (map snd (c # cs))) (maxOf (map snd (c # cs)))]\<rparr>"
  have v: "?out = projectedChain (c # cs)"
    using assms large by (rule validateAndFixCoordinates_projected)
  have w: "?out = chainOutcome (c # cs)"
    using assms large by (rule validateAndFixCoordinates_chain(2))
  show d: "(\<exists>r. returned ?out = JArray r \<and> repaired (c # cs) r) \<or> ?out = ?failure"
    unfolding v by (rule projectedChain_cases)
  then show "returned ?out \<noteq> JArray (c # cs)"
    using assms(1) by (auto dest: repaired_hd)
  show n: "(\<forall>step\<in>set repairOrder. snd step (c # cs) = Null) \<longleftrightarrow> returned ?out = JNull"
    unfolding w by (rule chainOutcome_Null [symmetric])
  have "returned ?out = JNull \<longleftrightarrow> ?out = ?failure"
  proof
    assume "returned ?out = JNull"
    then show "?out = ?failure"
      unfolding w by (simp add: chainOutcome_failure failureOutcome_def)
  next
    assume "?out = ?failure"
    then show "returned ?out = JNull" by simp
  qed
  with n show "(\<forall>step\<in>set repairOrder. snd step (c # cs) = Null) \<longleftrightarrow> ?out = ?failure"
    by (rule trans)
  show "\<forall>r. returned ?out = JArray r \<longleftrightarrow> snd (runSteps repairOrder (c # cs)) = Got r"
    unfolding w by (simp add: chainOutcome_def failureOutcome_def split: attempt.splits)
  show "\<forall>r. snd (runSteps repairOrder (c # cs)) = Got r
                 \<longrightarrow> repaired (c # cs) r
                     \<and> (\<exists>before step after.
                           repairOrder = before @ step # after
                           \<and> (\<forall>s\<in>set before. snd s (c # cs) = Null)
                           \<and> snd step (c # cs) = Got r
                           \<and> shown ?out = [successNotification (fst step)])"
  proof (intro allI impI)
    fix r
    assume g: "snd (runSteps repairOrder (c # cs)) = Got r"
    then have r: "returned ?out = JArray r"
      unfolding w by (simp add: chainOutcome_def)
    with d have rep: "repaired (c # cs) r"
      by auto
    from runSteps_Got [OF g] obtain before step after where
      b: "repairOrder = before @ step # after" "\<forall>s\<in>set before. snd s (c # cs) = Null"
         "snd step (c # cs) = Got r"
         "fst (runSteps repairOrder (c # cs)) = map fst before @ [fst step]"
      by blast
    have "shown ?out = [successNotification (fst step)]"
      unfolding w using g by (simp add: chainOutcome_def b(4))
    with b(1-3) have "repairOrder = before @ step # after
                           \<and> (\<forall>s\<in>set before. snd s (c # cs) = Null)
                           \<and> snd step (c # cs) = Got r
                           \<and> shown ?out = [successNotification (fst step)]"
      by simp
    then have "\<exists>before step after. repairOrder = before @ step # after
                           \<and> (\<forall>s\<in>set before. snd s (c # cs) = Null)
                           \<and> snd step (c # cs) = Got r
                           \<and> shown ?out = [successNotification (fst step)]"
      by blast
    with rep show "repaired (c # cs) r
                     \<and> (\<exists>before step after.
                           repairOrder = before @ step # after
                           \<and> (\<forall>s\<in>set before. snd s (c # cs) = Null)
                           \<and> snd step (c # cs) = Got r
                           \<and> shown ?out = [successNotification (fst step)])"
      by (rule conjI)
  qed
next
  assume "\<bar>fst c\<bar> \<le> 1000 \<and> \<bar>snd c\<bar> \<le> 1000"
  then show "validateAndFixCoordinates mapCenter (JArray (c # cs)) =
               \<lparr>returned = JArray (c # cs), shown = [DifferentSystemWarning]\<rparr>"
    using assms by (auto simp: validateAndFixCoordinates_def Let_def plausible_def swapPt_def)
next
  show "validateAndFixCoordinates_p1 (JArray (c # cs)) =
          \<lparr>returned = JArray (c # cs), shown = [DifferentSystemWarning]\<rparr>"
    using assms by (auto simp: validateAndFixCoordinates_p1_def Let_def plausible_def)
qed

theorem implausible_outcome_witness:
  "validateAndFixCoordinates (9, 8) (JArray [(500, 500), (500, 501)])
     = \<lparr>returned = JArray [(500, 500), (500, 501)], shown = [DifferentSystemWarning]\<rparr>
   \<and> validateAndFixCoordinates_p1 (JArray [(500, 500), (500, 501)])
     = \<lparr>returned = JArray [(500, 500), (500, 501)], shown = [DifferentSystemWarning]\<rparr>
   \<and> returned (validateAndFixCoordinates (9, 8) (JArray [(2000, 500), (2000, 501)]))
     \<noteq> JArray [(2000, 500), (2000, 501)]
   \<and> validateAndFixCoordinates (9, 8) (JArray [(5000000000, 7), (5000000000, 8)])
     = \<lparr>returned = JNull,
        shown = [ProjectionError,
                 CoordinateRanges (Fin 5000000000) (Fin 5000000000) (Fin 7) (Fin 8)]\<rparr>
   \<and> returned (validateAndFixCoordinates (9, 8) (JArray [(2000, 500), (2000, 501)]))
     = JArray [(2000 / 10000000, 500 / 10000000), (2000 / 10000000, 501 / 10000000)]"
proof -
  let ?L = "[(5000000000, 7), (5000000000, 8)] :: ring"
  let ?M = "[(2000, 500), (2000, 501)] :: ring"
  have a: "\<not> plausible (500, 500)" "\<not> plausible (swapPt (500, 500))"
    by (simp_all add: plausible_def swapPt_def)
  have b: "\<not> plausible (2000, 500)" "\<not> plausible (swapPt (2000, 500))"
    by (simp_all add: plausible_def swapPt_def)
  have c: "\<not> plausible (5000000000, 7)" "\<not> plausible (swapPt (5000000000, 7))"
    by (simp_all add: plausible_def swapPt_def)
  have s: "tryScalingTransform ?L = Null" "trySwapTransform ?L = Null"
    "tryOffsetTransform ?L = Null" "tryMixedTransform ?L = Null"
    "tryConvertUTMCoordinates ?L = Null" "tryConvertMinnaDatum ?L = Null"
    "tryGenericCoordinateTransform ?L = Null"
    by (simp_all add: tryScalingTransform_def trySwapTransform_def tryOffsetTransform_def
        tryMixedTransform_def tryConvertUTMCoordinates_def tryConvertMinnaDatum_def
        tryGenericCoordinateTransform_def acceptMapped_def orElse_def catchNull_def
        plausible_def scalePt_def swapPt_def offsetPt_def swapScalePt_def)
  have all: "\<forall>step\<in>set repairOrder. snd step ?L = Null"
    by (simp add: repairOrder_def s)
  have t: "tryScalingTransform ?M
           = Got [(2000 / 10000000, 500 / 10000000), (2000 / 10000000, 501 / 10000000)]"
    by (simp add: tryScalingTransform_def acceptMapped_def orElse_def plausible_def scalePt_def)
  have rm: "snd (runSteps repairOrder ?M)
            = Got [(2000 / 10000000, 500 / 10000000), (2000 / 10000000, 501 / 10000000)]"
    by (simp add: repairOrder_def t)
  note wa = implausible_outcome [OF a, of "(9, 8)" "[(500, 501)]"]
  note wb = implausible_outcome [OF b, of "(9, 8)" "[(2000, 501)]"]
  note wc = implausible_outcome [OF c, of "(9, 8)" "[(5000000000, 8)]"]
  have 1: "validateAndFixCoordinates (9, 8) (JArray [(500, 500), (500, 501)])
     = \<lparr>returned = JArray [(500, 500), (500, 501)], shown = [DifferentSystemWarning]\<rparr>"
    using wa by simp
  have 2: "validateAndFixCoordinates_p1 (JArray [(500, 500), (500, 501)])
     = \<lparr>returned = JArray [(500, 500), (500, 501)], shown = [DifferentSystemWarning]\<rparr>"
    using wa by simp
  have lb: "\<bar>fst (2000 :: real, 500 :: real)\<bar> > 1000 \<or> \<bar>snd (2000 :: real, 500 :: real)\<bar> > 1000"
    by simp
  have lc: "\<bar>fst (5000000000 :: real, 7 :: real)\<bar> > 1000 \<or> \<bar>snd (5000000000 :: real, 7 :: real)\<bar> > 1000"
    by simp
  note wb1 = wb [THEN conjunct1, THEN mp, OF lb]
  note wc1 = wc [THEN conjunct1, THEN mp, OF lc]
  have 3: "returned (validateAndFixCoordinates (9, 8) (JArray ?M)) \<noteq> JArray ?M"
    using wb1 [THEN conjunct1] .
  have 4: "validateAndFixCoordinates (9, 8) (JArray ?L)
     = \<lparr>returned = JNull,
        shown = [ProjectionError,
                 CoordinateRanges (Fin 5000000000) (Fin 5000000000) (Fin 7) (Fin 8)]\<rparr>"
    using wc1 [THEN conjunct2, THEN conjunct2, THEN conjunct1] all by simp
  have 5: "returned (validateAndFixCoordinates (9, 8) (JArray ?M))
     = JArray [(2000 / 10000000, 500 / 10000000), (2000 / 10000000, 501 / 10000000)]"
    using wb1 [THEN conjunct2, THEN conjunct2, THEN conjunct2, THEN conjunct2, THEN conjunct1] rm
    by blast
  from 1 2 3 4 5 show ?thesis
    by (intro conjI)
qed


section \<open>A first vertex inside the Minna rectangle\<close>

text \<open>
  Claim C5, as stated, has the list starting with \<open>[700000, 450000]\<close> come back tagged
  as converted from the Minna datum. The checker divides it by \<open>10^7\<close> in its first
  stage and reports a simple scaling.
\<close>

theorem minna_input_counterexample:
  "validateAndFixCoordinates (9, 8) (JArray [(700000, 450000), (700100, 450000), (700100, 450100)])
     = \<lparr>returned = JArray [(7 / 100, 45 / 1000), (70010 / 1000000, 45 / 1000),
                            (70010 / 1000000, 45010 / 1000000)],
        shown = [SimpleScalingConverted]\<rparr>
   \<and> shown (validateAndFixCoordinates (9, 8)
              (JArray [(700000, 450000), (700100, 450000), (700100, 450100)]))
       \<noteq> [MinnaDatumConverted]"
  by (simp add: validateAndFixCoordinates_def Let_def projectedChain_def trySimpleScaling_def
      tryScalingTransform_def acceptMapped_def orElse_def catchNull_def plausible_def
      scalePt_def)

text \<open>
  Claim C5, amended: for a list whose first vertex lies in the rectangle
  \<open>100000..900000\<close> by \<open>100000..1200000\<close>, such as \<open>[700000, 450000]\<close>, the checker
  returns every vertex divided by \<open>10^7\<close>; the first vertex of the result is plausible
  (\<open>[0.07, 0.045]\<close> for the example) and the one notification is the one of the simple
  scaling.
\<close>

theorem minna_rectangle_outcome:
  assumes "100000 \<le> fst c" and "fst c \<le> 900000" and "100000 \<le> snd c" and "snd c \<le> 1200000"
  shows "validateAndFixCoordinates mapCenter (JArray (c # cs))
           = \<lparr>returned = JArray (map (scalePt 10000000) (c # cs)),
              shown = [SimpleScalingConverted]\<rparr>
         \<and> plausible (scalePt 10000000 c)"
proof -
  have p: "plausible (scalePt 10000000 c)"
    using assms by (simp add: plausible_def scalePt_def abs_le_iff)
  have n: "\<not> plausible c" "\<not> plausible (swapPt c)" "\<bar>fst c\<bar> > 1000 \<or> \<bar>snd c\<bar> > 1000"
    using assms by (simp_all add: plausible_def swapPt_def)
  have "tryScalingTransform (c # cs) = Got (map (scalePt 10000000) (c # cs))"
    unfolding tryScalingTransform_def using p by (rule tryEach_first)
  then have "trySimpleScaling (c # cs) = Got (map (scalePt 10000000) (c # cs))"
    by (simp only: trySimpleScaling_eq [OF n(2)])
  then have "projectedChain (c # cs)
             = \<lparr>returned = JArray (map (scalePt 10000000) (c # cs)),
                shown = [SimpleScalingConverted]\<rparr>"
    by (simp add: projectedChain_def)
  then show ?thesis
    using p by (simp only: validateAndFixCoordinates_projected [OF n])
qed

theorem minna_rectangle_outcome_witness:
  "validateAndFixCoordinates (9, 8) (JArray [(700000, 450000), (700100, 450100)])
     = \<lparr>returned = JArray [(7 / 100, 45 / 1000), (70010 / 1000000, 45010 / 1000000)],
        shown = [SimpleScalingConverted]\<rparr>
   \<and> plausible (7 / 100, 45 / 1000)"
  using minna_rectangle_outcome [of "(700000, 450000)" "(9, 8)" "[(700100, 450100)]"]
  by (simp add: scalePt_def)

section \<open>Repairs keep the vertices in place\<close>






end
